theory Spec2Isabelle
  imports Main "HOL-Library.Word"
begin

unbundle bit_operations_syntax

section \<open>Common types\<close>

type_synonym u8 = "8 word"
type_synonym u32 = "32 word"
type_synonym u64 = "64 word"
type_synonym i64 = "64 word"
type_synonym bytes = "u8 list"

text \<open>
  Go error values.  \<open>ErrAddrNotFound\<close> is the package-level sentinel
  \<^verbatim>\<open>errAddrNotFound\<close>; \<open>ErrDustLimit\<close> is the error built by
  \<^verbatim>\<open>sweepRemoteClosed\<close> when the swept value is below \<^verbatim>\<open>sweepDustLimit\<close>
  (it carries the number of targets and the total value, as the message does);
  the three \<open>ErrPath\<close> errors are those of \<^verbatim>\<open>ParsePath\<close>;
  \<open>External\<close> is an error value returned by a library the repository calls;
  \<open>Wrap\<close> is \<^verbatim>\<open>fmt.Errorf("...: %w", err)\<close>; \<open>Panic\<close> is a run-time panic.
\<close>

datatype 'x error =
    ErrAddrNotFound
  | ErrDustLimit nat u64
  | ErrPathEmpty
  | ErrPathPrefix
  | ErrPathPart string
  | ErrMsg string
  | External 'x
  | Wrap string "'x error"
  | Panic string

text \<open>\<^verbatim>\<open>errors.Is(err, errAddrNotFound)\<close>: the sentinel itself, or a chain of
  \<^verbatim>\<open>%w\<close> wrappers around it.\<close>

fun is_errAddrNotFound :: "'x error \<Rightarrow> bool" where
  "is_errAddrNotFound ErrAddrNotFound = True"
| "is_errAddrNotFound (Wrap _ e) = is_errAddrNotFound e"
| "is_errAddrNotFound _ = False"

section \<open>lnd/hdkeychain.go: DeriveChildren\<close>

text \<open>
  The extended-key type and its methods belong to the library
  \<^verbatim>\<open>btcutil/hdkeychain\<close>; they are parameters of the model.  \<open>'k\<close> is
  \<^verbatim>\<open>*hdkeychain.ExtendedKey\<close>, \<open>'x\<close> the library's error values.
\<close>

record ('k, 'x) hdkeychain =
  DeriveNonStandard :: "'k \<Rightarrow> u32 \<Rightarrow> 'x + 'k"
  Depth :: "'k \<Rightarrow> u8"
  String_of :: "'k \<Rightarrow> string"
  NewKeyFromString :: "string \<Rightarrow> 'x + 'k"

definition HardenedKeyStart :: u32 where
  "HardenedKeyStart = 0x80000000"

text \<open>
  The body of the \<^verbatim>\<open>for idx, pathPart := range path\<close> loop of
  \<^verbatim>\<open>DeriveChildren\<close>.  \<open>path\<close> is the whole slice (the loop reads
  \<^verbatim>\<open>len(path)\<close> and \<^verbatim>\<open>path[idx+1]\<close>), \<open>idx\<close> the position reached and the
  last argument the segments still to visit.  Reading \<^verbatim>\<open>path[idx+1]\<close> past the
  end of the slice panics in Go.
\<close>

fun DeriveChildren_loop ::
  "('k, 'x) hdkeychain \<Rightarrow> u32 list \<Rightarrow> nat \<Rightarrow> 'k \<Rightarrow> u32 list \<Rightarrow> 'x error + 'k" where
  "DeriveChildren_loop L path idx currentKey [] = Inr currentKey"
| "DeriveChildren_loop L path idx currentKey (pathPart # rest) =
     (case DeriveNonStandard L currentKey pathPart of
        Inl err \<Rightarrow> Inl (External err)
      | Inr derivedKey \<Rightarrow>
          (let depth = Depth L derivedKey;
               keyID = pathPart - HardenedKeyStart
           in if depth = 2 \<and> length path > 2 \<and> \<not> idx + 1 < length path
              then Inl (Panic ''index out of range'')
              else
                (let nextID = (if depth = 2 \<and> length path > 2
                               then path ! (idx + 1) - HardenedKeyStart else 0)
                 in if (depth = 2 \<and> nextID \<noteq> 0) \<or> (depth = 3 \<and> keyID \<noteq> 0)
                    then (case NewKeyFromString L (String_of L derivedKey) of
                            Inl err \<Rightarrow> Inl (External err)
                          | Inr k \<Rightarrow> DeriveChildren_loop L path (idx + 1) k rest)
                    else DeriveChildren_loop L path (idx + 1) derivedKey rest)))"

definition DeriveChildren ::
  "('k, 'x) hdkeychain \<Rightarrow> 'k \<Rightarrow> u32 list \<Rightarrow> 'x error + 'k" where
  "DeriveChildren L key path = DeriveChildren_loop L path 0 key path"

text \<open>
  The two derivations the specification compares \<^verbatim>\<open>DeriveChildren\<close> with,
  written from its words.  \<open>plain_bip32\<close> is plain iterative child
  derivation: one derivation step per segment and nothing else.
  \<open>variant_bip32\<close> is the Variant-BIP32 scheme: after a step, the derived
  key is round-tripped through its string form when it is at depth 2 and the
  next segment's index is non-zero, or at depth 3 and the current segment's
  index is non-zero; the index of a segment is its value less the hardened
  offset.
\<close>

fun plain_bip32 :: "('k, 'x) hdkeychain \<Rightarrow> 'k \<Rightarrow> u32 list \<Rightarrow> 'x error + 'k" where
  "plain_bip32 L k [] = Inr k"
| "plain_bip32 L k (seg # segs) =
     (case DeriveNonStandard L k seg of
        Inl err \<Rightarrow> Inl (External err)
      | Inr k' \<Rightarrow> plain_bip32 L k' segs)"

definition segment_index :: "u32 \<Rightarrow> u32" where
  "segment_index seg = seg - HardenedKeyStart"

fun next_index_nonzero :: "u32 list \<Rightarrow> bool" where
  "next_index_nonzero [] = False"
| "next_index_nonzero (seg # _) = (segment_index seg \<noteq> 0)"

fun variant_bip32 :: "('k, 'x) hdkeychain \<Rightarrow> 'k \<Rightarrow> u32 list \<Rightarrow> 'x error + 'k" where
  "variant_bip32 L k [] = Inr k"
| "variant_bip32 L k (seg # segs) =
     (case DeriveNonStandard L k seg of
        Inl err \<Rightarrow> Inl (External err)
      | Inr k' \<Rightarrow>
          if (Depth L k' = 2 \<and> next_index_nonzero segs)
             \<or> (Depth L k' = 3 \<and> segment_index seg \<noteq> 0)
          then (case NewKeyFromString L (String_of L k') of
                  Inl err \<Rightarrow> Inl (External err)
                | Inr k'' \<Rightarrow> variant_bip32 L k'' segs)
          else variant_bip32 L k' segs)"

text \<open>
  What the theorems assume of the library: a successful derivation step
  yields a key one level deeper (the depth is a byte and does not wrap), and
  parsing a key's string form keeps its depth.
\<close>

definition depth_law :: "('k, 'x) hdkeychain \<Rightarrow> bool" where
  "depth_law L =
     ((\<forall>k i k'. DeriveNonStandard L k i = Inr k' \<longrightarrow> unat (Depth L k') = Suc (unat (Depth L k)))
      \<and> (\<forall>k k'. NewKeyFromString L (String_of L k) = Inr k' \<longrightarrow> Depth L k' = Depth L k))"

text \<open>
  What the library's string form is assumed to be when keys are compared up
  to it: parsing the string form of a key succeeds and gives a key with the
  same string form, and the derivation of a non-hardened child depends on the
  parent through its string form only.
\<close>

definition string_form_law :: "('k, 'x) hdkeychain \<Rightarrow> bool" where
  "string_form_law L =
     ((\<forall>k. \<exists>k'. NewKeyFromString L (String_of L k) = Inr k')
      \<and> (\<forall>k k'. NewKeyFromString L (String_of L k) = Inr k' \<longrightarrow> String_of L k' = String_of L k)
      \<and> (\<forall>k k' i. i < HardenedKeyStart \<and> String_of L k = String_of L k'
             \<longrightarrow> DeriveNonStandard L k i = DeriveNonStandard L k' i))"

text \<open>Two results are the same up to the string form of the key.\<close>

fun same_result :: "('k, 'x) hdkeychain \<Rightarrow> 'x error + 'k \<Rightarrow> 'x error + 'k \<Rightarrow> bool" where
  "same_result L (Inr k) (Inr k') = (String_of L k = String_of L k')"
| "same_result L (Inl e) (Inl e') = (e = e')"
| "same_result L _ _ = False"

section \<open>lnd/hdkeychain.go: ParsePath\<close>

text \<open>
  Go's \<^verbatim>\<open>strings\<close> and \<^verbatim>\<open>strconv\<close> functions that \<^verbatim>\<open>ParsePath\<close> calls, on
  byte strings.  \<^verbatim>\<open>strings.TrimSpace\<close> removes leading and trailing white
  space as Unicode defines it: the six ASCII white-space bytes and the UTF-8
  encodings of U+0085, U+00A0, U+1680, U+2000 to U+200A, U+2028, U+2029,
  U+202F, U+205F and U+3000.  \<^verbatim>\<open>strconv.Atoi\<close> reads an optional sign and
  decimal digits and fails on anything else and on a value outside the
  64-bit \<^verbatim>\<open>int\<close>.
\<close>

definition HasPrefix :: "string \<Rightarrow> string \<Rightarrow> bool" where
  "HasPrefix s pre = (take (length pre) s = pre)"

definition asciiSpace :: "char \<Rightarrow> bool" where
  "asciiSpace c = (c \<in> {CHR 0x09, CHR 0x0A, CHR 0x0B, CHR 0x0C, CHR 0x0D, CHR 0x20})"

definition unicodeSpaces :: "string list" where
  "unicodeSpaces =
     [[CHR 0xC2, CHR 0x85], [CHR 0xC2, CHR 0xA0], [CHR 0xE1, CHR 0x9A, CHR 0x80],
      [CHR 0xE2, CHR 0x80, CHR 0x80], [CHR 0xE2, CHR 0x80, CHR 0x81],
      [CHR 0xE2, CHR 0x80, CHR 0x82], [CHR 0xE2, CHR 0x80, CHR 0x83],
      [CHR 0xE2, CHR 0x80, CHR 0x84], [CHR 0xE2, CHR 0x80, CHR 0x85],
      [CHR 0xE2, CHR 0x80, CHR 0x86], [CHR 0xE2, CHR 0x80, CHR 0x87],
      [CHR 0xE2, CHR 0x80, CHR 0x88], [CHR 0xE2, CHR 0x80, CHR 0x89],
      [CHR 0xE2, CHR 0x80, CHR 0x8A], [CHR 0xE2, CHR 0x80, CHR 0xA8],
      [CHR 0xE2, CHR 0x80, CHR 0xA9], [CHR 0xE2, CHR 0x80, CHR 0xAF],
      [CHR 0xE2, CHR 0x81, CHR 0x9F], [CHR 0xE3, CHR 0x80, CHR 0x80]]"

fun trimLeftSpace :: "string list \<Rightarrow> string \<Rightarrow> string" where
  "trimLeftSpace encs [] = []"
| "trimLeftSpace encs (c # cs) =
     (if asciiSpace c then trimLeftSpace encs cs
      else (case find (HasPrefix (c # cs)) encs of
              None \<Rightarrow> c # cs
            | Some enc \<Rightarrow> trimLeftSpace encs (drop (length enc - 1) cs)))"

definition TrimSpace :: "string \<Rightarrow> string" where
  "TrimSpace s =
     rev (trimLeftSpace (map rev unicodeSpaces) (rev (trimLeftSpace unicodeSpaces s)))"

fun Split :: "string \<Rightarrow> char \<Rightarrow> string list" where
  "Split [] sep = [[]]"
| "Split (c # cs) sep =
     (if c = sep then [] # Split cs sep
      else (case Split cs sep of p # ps \<Rightarrow> (c # p) # ps | [] \<Rightarrow> [[c]]))"

definition Contains :: "string \<Rightarrow> char \<Rightarrow> bool" where
  "Contains s c = (c \<in> set s)"

definition TrimRight :: "string \<Rightarrow> char \<Rightarrow> string" where
  "TrimRight s c = rev (dropWhile (\<lambda>d. d = c) (rev s))"

definition isDigit :: "char \<Rightarrow> bool" where
  "isDigit c = ((48 :: nat) \<le> of_char c \<and> (of_char c :: nat) \<le> 57)"

definition digitVal :: "char \<Rightarrow> int" where
  "digitVal c = of_char c - 48"

definition decimal :: "string \<Rightarrow> int" where
  "decimal ds = foldl (\<lambda>n c. n * 10 + digitVal c) 0 ds"

definition isSign :: "char \<Rightarrow> bool" where
  "isSign c = (c = CHR ''+'' \<or> c = CHR ''-'')"

definition Atoi :: "string \<Rightarrow> int option" where
  "Atoi s =
     (let ds = (if s \<noteq> [] \<and> isSign (hd s) then tl s else s)
      in if ds = [] \<or> \<not> list_all isDigit ds then None
         else (let n = (if hd s = CHR ''-'' then - decimal ds else decimal ds)
               in if n < - (2 ^ 63) \<or> 2 ^ 63 \<le> n then None else Some n))"

definition apostrophe :: char where "apostrophe = CHR 0x27"

fun parseParts :: "string list \<Rightarrow> 'x error + u32 list" where
  "parseParts [] = Inr []"
| "parseParts (p # ps) =
     (let index = (if Contains p apostrophe then 0 + HardenedKeyStart else 0);
          part = (if Contains p apostrophe then TrimRight p apostrophe else p)
      in case Atoi part of
           None \<Rightarrow> Inl (ErrPathPart part)
         | Some parsed \<Rightarrow>
             (case parseParts ps of
                Inl err \<Rightarrow> Inl err
              | Inr indices \<Rightarrow> Inr ((index + word_of_int parsed) # indices)))"

definition ParsePath :: "string \<Rightarrow> 'x error + u32 list" where
  "ParsePath path0 =
     (let path = TrimSpace path0
      in if length path = 0 then Inl ErrPathEmpty
         else if \<not> HasPrefix path ''m/'' then Inl ErrPathPrefix
         else parseParts (tl (Split path (CHR ''/''))))"

text \<open>
  The path texts \<^verbatim>\<open>ParsePath\<close> accepts, described without its code: a
  segment is a number that \<^verbatim>\<open>strconv.Atoi\<close> reads, followed by nothing but
  apostrophes; its value is the number as a 32-bit word, plus the hardened
  offset when an apostrophe follows.
\<close>

definition segment_number :: "string \<Rightarrow> string" where
  "segment_number seg = takeWhile (\<lambda>c. c \<noteq> apostrophe) seg"

definition segment_marks :: "string \<Rightarrow> string" where
  "segment_marks seg = dropWhile (\<lambda>c. c \<noteq> apostrophe) seg"

definition accepted_segment :: "string \<Rightarrow> bool" where
  "accepted_segment seg =
     (Atoi (segment_number seg) \<noteq> None \<and> list_all (\<lambda>c. c = apostrophe) (segment_marks seg))"

definition segment_value :: "string \<Rightarrow> u32" where
  "segment_value seg =
     (if segment_marks seg = [] then 0 else HardenedKeyStart)
       + word_of_int (case Atoi (segment_number seg) of Some n \<Rightarrow> n | None \<Rightarrow> 0)"

section \<open>cln: FundingKey and HkdfSha256\<close>

text \<open>
  The libraries \<^verbatim>\<open>FundingKey\<close> calls are parameters: \<open>hkdf_read32 key salt info\<close>
  is \<^verbatim>\<open>hkdf.New(sha256.New, key, salt, info)\<close> followed by a \<^verbatim>\<open>Read\<close> of 32
  bytes (the bytes read, or the error of \<^verbatim>\<open>Read\<close>), with the \<^verbatim>\<open>nil\<close> salt as
  the empty byte string; \<open>SerializeCompressed\<close> is the method of
  \<^verbatim>\<open>btcec.PublicKey\<close>; \<open>PrivKeyFromBytes_pub\<close> is the public key that
  \<^verbatim>\<open>btcec.PrivKeyFromBytes\<close> returns.  \<open>'p\<close> is \<^verbatim>\<open>*btcec.PublicKey\<close>.
\<close>

record ('p, 'x) cln_lib =
  hkdf_read32 :: "bytes \<Rightarrow> bytes \<Rightarrow> bytes \<Rightarrow> 'x + bytes"
  SerializeCompressed :: "'p \<Rightarrow> bytes"
  PrivKeyFromBytes_pub :: "bytes \<Rightarrow> 'p"

definition bytes_of :: "string \<Rightarrow> bytes" where
  "bytes_of s = map of_char s"

definition InfoPeerSeed :: bytes where "InfoPeerSeed = bytes_of ''peer seed''"
definition InfoPerPeer :: bytes where "InfoPerPeer = bytes_of ''per-peer seed''"
definition InfoCLightning :: bytes where "InfoCLightning = bytes_of ''c-lightning''"

definition HkdfSha256 :: "('p, 'x) cln_lib \<Rightarrow> bytes \<Rightarrow> bytes \<Rightarrow> bytes \<Rightarrow> 'x error + bytes" where
  "HkdfSha256 C key salt info =
     (case hkdf_read32 C key salt info of
        Inl err \<Rightarrow> Inl (External err)
      | Inr outputKey \<Rightarrow> Inr outputKey)"

text \<open>Go's \<^verbatim>\<open>copy(dst, src)\<close> and \<^verbatim>\<open>binary.LittleEndian.PutUint64(b, v)\<close>, the
  latter panicking on a slice shorter than 8 bytes.\<close>

definition copy_bytes :: "bytes \<Rightarrow> bytes \<Rightarrow> bytes" where
  "copy_bytes dst src =
     (let n = min (length dst) (length src) in take n src @ drop n dst)"

definition PutUint64 :: "bytes \<Rightarrow> u64 \<Rightarrow> bytes option" where
  "PutUint64 b v =
     (if length b < 8 then None
      else Some ([ucast v, ucast (drop_bit 8 v), ucast (drop_bit 16 v), ucast (drop_bit 24 v),
                  ucast (drop_bit 32 v), ucast (drop_bit 40 v), ucast (drop_bit 48 v),
                  ucast (drop_bit 56 v)] @ drop 8 b))"

definition FundingKey ::
  "('p, 'x) cln_lib \<Rightarrow> bytes \<Rightarrow> 'p \<Rightarrow> u64 \<Rightarrow> 'x error + 'p" where
  "FundingKey C hsmSecret peerPubKey channelNum =
     (case HkdfSha256 C hsmSecret [] InfoPeerSeed of
        Inl err \<Rightarrow> Inl err
      | Inr channelBase \<Rightarrow>
          (let peerAndChannel = replicate (33 + 8) 0;
               peerAndChannel = copy_bytes (take 33 peerAndChannel)
                                  (SerializeCompressed C peerPubKey) @ drop 33 peerAndChannel
           in case PutUint64 (drop 33 peerAndChannel) channelNum of
                None \<Rightarrow> Inl (Panic ''index out of range'')
              | Some tail \<Rightarrow>
                  (let peerAndChannel = take 33 peerAndChannel @ tail
                   in case HkdfSha256 C channelBase peerAndChannel InfoPerPeer of
                        Inl err \<Rightarrow> Inl err
                      | Inr channelSeed \<Rightarrow>
                          (case HkdfSha256 C channelSeed [] InfoCLightning of
                             Inl err \<Rightarrow> Inl err
                           | Inr fundingKey \<Rightarrow> Inr (PrivKeyFromBytes_pub C fundingKey)))))"

text \<open>
  The HKDF chain as the specification words it: three expansions, each keyed
  by the output of the stage before; the second salted with the compressed
  public key followed by the channel index as 8 little-endian bytes, the
  others unsalted.
\<close>

definition little_endian64 :: "u64 \<Rightarrow> bytes" where
  "little_endian64 n = map (\<lambda>i. ucast (drop_bit (8 * i) n)) [0..<8]"

definition hkdf_chain ::
  "('p, 'x) cln_lib \<Rightarrow> bytes \<Rightarrow> 'p \<Rightarrow> u64 \<Rightarrow> 'x error + 'p" where
  "hkdf_chain C secret P n =
     (case hkdf_read32 C secret [] (bytes_of ''peer seed'') of
        Inl err \<Rightarrow> Inl (External err)
      | Inr stage1 \<Rightarrow>
          (case hkdf_read32 C stage1 (SerializeCompressed C P @ little_endian64 n)
                  (bytes_of ''per-peer seed'') of
             Inl err \<Rightarrow> Inl (External err)
           | Inr stage2 \<Rightarrow>
               (case hkdf_read32 C stage2 [] (bytes_of ''c-lightning'') of
                  Inl err \<Rightarrow> Inl (External err)
                | Inr stage3 \<Rightarrow> Inr (PrivKeyFromBytes_pub C stage3))))"

text \<open>A stand-in for the key-derivation libraries, for evaluating the model.\<close>

definition concat_lib :: "(bytes, unit) cln_lib" where
  "concat_lib =
     \<lparr> hkdf_read32 = (\<lambda>key salt info. Inr (take 32 (salt @ info @ key))),
       SerializeCompressed = (\<lambda>p. p),
       PrivKeyFromBytes_pub = (\<lambda>priv. 2 # priv) \<rparr>"

text \<open>
  A small key library for evaluating the model, with the padding quirk the
  string round trip repairs: a key is the record of how it was made together
  with a flag that it came out of a round trip.  A derivation step appends
  \<open>d\<close>; the step to a hardened child from a key that did not come out of a
  round trip appends \<open>dq\<close> instead.  The depth is the number of steps, a
  step fails at depth 255, and the string form is the record without the flag.
\<close>

definition trace_depth :: "string \<Rightarrow> nat" where
  "trace_depth k = length (filter (\<lambda>c. c = CHR ''d'') k)"

definition padded_keychain :: "(string \<times> bool, unit) hdkeychain" where
  "padded_keychain =
     \<lparr> DeriveNonStandard =
         (\<lambda>(s, padded) i.
            if 255 \<le> trace_depth s then Inl ()
            else Inr (s @ (if i < HardenedKeyStart \<or> padded then ''d'' else ''dq''), False)),
       Depth = (\<lambda>(s, padded). of_nat (trace_depth s)),
       String_of = (\<lambda>(s, padded). s),
       NewKeyFromString = (\<lambda>s. Inr (s, True)) \<rparr>"

section \<open>cmd/chantools/sweepremoteclosed.go: data\<close>

text \<open>
  \<^verbatim>\<open>btcutil.Address\<close> is an interface; the type switch of the sweep builder
  looks at the dynamic type of an address.  \<open>'a\<close> is what the library keeps
  in an address.
\<close>

datatype 'a address =
    AddressPubKeyHash 'a
  | AddressScriptHash 'a
  | AddressPubKey 'a
  | AddressWitnessPubKeyHash 'a
  | AddressWitnessScriptHash 'a
  | AddressTaproot 'a

record outPoint =
  OutPoint_Hash :: bytes
  OutPoint_Index :: u32

record txOut =
  TxOut_Value :: i64
  PkScript :: bytes

record utxo =
  TxOut :: txOut
  OutPoint :: outPoint

record 'p keyDescriptor =
  Family :: u32
  Index :: u32
  PubKey :: 'p

record ('p, 'a, 't) targetAddr =
  addr :: "'a address"
  keyDesc :: "'p keyDescriptor"
  tweak :: bytes
  utxos :: "utxo list"
  script :: bytes
  scriptTree :: "'t option"

record txIn =
  PreviousOutPoint :: outPoint
  Witness :: "bytes list"
  Sequence :: u32

record msgTx =
  Version :: "32 word"
  TxIn :: "txIn list"
  TxOuts :: "txOut list"
  LockTime :: u32

datatype sigHashType = SigHashDefault | SigHashAll
datatype signMethod = WitnessV0SignMethod | TaprootScriptSpendSignMethod

type_synonym prevOutFetcher = "(outPoint \<times> txOut) list"

record 'p signDescriptor =
  KeyDesc :: "'p keyDescriptor"
  WitnessScript :: bytes
  SingleTweak :: bytes
  Output :: txOut
  HashType :: sigHashType
  ControlBlock :: bytes
  InputIndex :: nat
  SignMethod :: signMethod
  TapTweak :: bytes
  SigHashes :: "(msgTx \<times> prevOutFetcher) option"

text \<open>\<^verbatim>\<open>btc.Vout\<close> and \<^verbatim>\<open>btc.TX\<close>, as the explorer API returns them, and an
  entry of the embedded list of ancient channel points.\<close>

record vout =
  Vout_Value :: u64
  ScriptPubkey :: string
  Outspend_Txid :: string
  Outspend_Vin :: int

record ancientChannel =
  OP :: string
  Addr :: string
  CP :: string

text \<open>The calls made on an \<^verbatim>\<open>input.TxWeightEstimator\<close>, in order; its weight
  is a function of them that the library defines.\<close>

datatype est_call = AddP2WKHOutput | AddP2TROutput | AddP2WKHInput | AddWitnessInput u64

text \<open>The constant \<^verbatim>\<open>sweepDustLimit\<close> of the file and
  \<^verbatim>\<open>wire.MaxTxInSequenceNum\<close> of btcd.\<close>

definition sweepDustLimit :: u64 where
  "sweepDustLimit = 600"

definition MaxTxInSequenceNum :: u32 where
  "MaxTxInSequenceNum = 0xffffffff"

text \<open>
  Everything outside the three source files: the libraries (btcd, btcutil,
  lnd), the explorer API client, the embedded list of ancient channels and the
  functions of the repository whose bodies are elsewhere (\<^verbatim>\<open>fillCache\<close>,
  \<^verbatim>\<open>keyInCache\<close>, \<^verbatim>\<open>lnd.ParseOutpoint\<close>, \<^verbatim>\<open>lnd.PrepareWalletAddress\<close>).  The
  chain parameters, the explorer and the signer's key are fixed in them.
  \<open>'k\<close> is an extended key, \<open>'s\<close> a private key, \<open>'p\<close> a public key,
  \<open>'t\<close> a commitment script tree, \<open>'x\<close> a library error.
\<close>

record ('k, 's, 'p, 'a, 't, 'x) env =
  keychain :: "('k, 'x) hdkeychain"
  HDCoinType :: u32
  KeyFamilyPaymentBase :: u32
  ECPrivKey :: "'k \<Rightarrow> 'x + 's"
  PrivKey_PubKey :: "'s \<Rightarrow> 'p"
  PubKey_SerializeCompressed :: "'p \<Rightarrow> bytes"
  Hash160 :: "bytes \<Rightarrow> bytes"
  Sum256 :: "bytes \<Rightarrow> bytes"
  NewAddressWitnessPubKeyHash :: "bytes \<Rightarrow> 'x + 'a"
  NewAddressWitnessScriptHash :: "bytes \<Rightarrow> 'x + 'a"
  NewAddressTaproot :: "bytes \<Rightarrow> 'x + 'a"
  CommitScriptToRemoteConfirmed :: "'p \<Rightarrow> 'x + bytes"
  NewRemoteCommitScriptTree :: "'p \<Rightarrow> 'x + 't"
  TaprootKey_bytes :: "'t \<Rightarrow> bytes"
  SettleLeaf_Script :: "'t \<Rightarrow> bytes"
  TapscriptRoot :: "'t \<Rightarrow> bytes"
  SuccessCtrlBlockBytes :: "'t \<Rightarrow> 'x + bytes"
  EncodeAddress :: "'a address \<Rightarrow> string"
  Address_String :: "'a address \<Rightarrow> string"
  DecodeAddress :: "string \<Rightarrow> 'x + 'a address"
  IsForNet :: "'a address \<Rightarrow> bool"
  ChainName :: string
  ParsePubKey :: "bytes \<Rightarrow> 'x + 'p"
  hex_DecodeString :: "string \<Rightarrow> 'x + bytes"
  NewHashFromStr :: "string \<Rightarrow> 'x + bytes"
  Hash_String :: "bytes \<Rightarrow> string"
  Unspent :: "string \<Rightarrow> 'x + vout list"
  Transaction :: "string \<Rightarrow> 'x + vout list"
  PublishTx :: "string \<Rightarrow> 'x + string"
  ancientChannelPoints :: "'x + ancientChannel list"
  fillCache :: "u32 \<Rightarrow> 'k \<Rightarrow> 'x error option"
  keyInCache :: "u32 \<Rightarrow> string \<Rightarrow> 'p \<Rightarrow> 'x error + ('p keyDescriptor \<times> bytes)"
  ParseOutpoint :: "string \<Rightarrow> 'x error + outPoint"
  PrepareWalletAddress :: "string \<Rightarrow> 'k \<Rightarrow> 'x error + (bytes \<times> est_call list)"
  ToRemoteConfirmedWitnessSize :: u64
  TaprootToRemoteWitnessSize :: u64
  Weight :: "est_call list \<Rightarrow> u64"
  FeePerKWeight :: "i64 \<Rightarrow> i64"
  FeeForWeight :: "i64 \<Rightarrow> u64 \<Rightarrow> i64"
  TaprootCommitSpendSuccess :: "'p signDescriptor \<Rightarrow> msgTx \<Rightarrow> 'x + bytes list"
  CommitSpendToRemoteConfirmed :: "'p signDescriptor \<Rightarrow> msgTx \<Rightarrow> 'x + bytes list"
  CommitSpendNoDelay :: "'p signDescriptor \<Rightarrow> msgTx \<Rightarrow> 'x + bytes list"
  Serialize :: "msgTx \<Rightarrow> 'x + bytes"
  hex_EncodeToString :: "bytes \<Rightarrow> string"

section \<open>lnd/hdkeychain.go: addresses\<close>

definition P2WKHAddr ::
  "('k, 's, 'p, 'a, 't, 'x) env \<Rightarrow> 'p \<Rightarrow> 'x error + 'a address" where
  "P2WKHAddr E pubKey =
     (let hash160 = Hash160 E (PubKey_SerializeCompressed E pubKey)
      in case NewAddressWitnessPubKeyHash E hash160 of
           Inl err \<Rightarrow> Inl (External err)
         | Inr a \<Rightarrow> Inr (AddressWitnessPubKeyHash a))"

definition P2AnchorStaticRemote ::
  "('k, 's, 'p, 'a, 't, 'x) env \<Rightarrow> 'p \<Rightarrow> 'x error + ('a address \<times> bytes)" where
  "P2AnchorStaticRemote E pubKey =
     (case CommitScriptToRemoteConfirmed E pubKey of
        Inl err \<Rightarrow> Inl (Wrap ''could not create script'' (External err))
      | Inr commitScript \<Rightarrow>
          (let scriptHash = Sum256 E commitScript
           in case NewAddressWitnessScriptHash E scriptHash of
                Inl err \<Rightarrow> Inl (External err)
              | Inr a \<Rightarrow> Inr (AddressWitnessScriptHash a, commitScript)))"

definition P2TaprootStaticRemote ::
  "('k, 's, 'p, 'a, 't, 'x) env \<Rightarrow> 'p \<Rightarrow> 'x error + ('a address \<times> 't)" where
  "P2TaprootStaticRemote E pubKey =
     (case NewRemoteCommitScriptTree E pubKey of
        Inl err \<Rightarrow> Inl (Wrap ''could not create script'' (External err))
      | Inr tree \<Rightarrow>
          (case NewAddressTaproot E (TaprootKey_bytes E tree) of
             Inl err \<Rightarrow> Inl (External err)
           | Inr a \<Rightarrow> Inr (AddressTaproot a, tree)))"

definition ParseAddress ::
  "('k, 's, 'p, 'a, 't, 'x) env \<Rightarrow> string \<Rightarrow> 'x error + 'a address" where
  "ParseAddress E a =
     (case DecodeAddress E a of
        Inl err \<Rightarrow> Inl (Wrap ''unable to decode address'' (External err))
      | Inr targetAddr \<Rightarrow>
          if \<not> IsForNet E targetAddr
          then Inl (ErrMsg ''address is not valid for this network'')
          else Inr targetAddr)"

section \<open>cmd/chantools/sweepremoteclosed.go: scanning\<close>

fun parseUtxos ::
  "('k, 's, 'p, 'a, 't, 'x) env \<Rightarrow> vout list \<Rightarrow> 'x error + utxo list" where
  "parseUtxos E [] = Inr []"
| "parseUtxos E (v # vouts) =
     (case NewHashFromStr E (Outspend_Txid v) of
        Inl err \<Rightarrow> Inl (Wrap ''error parsing tx hash'' (External err))
      | Inr txHash \<Rightarrow>
          (case hex_DecodeString E (ScriptPubkey v) of
             Inl err \<Rightarrow> Inl (Wrap ''error decoding script pubkey'' (External err))
           | Inr pkScript \<Rightarrow>
               (case parseUtxos E vouts of
                  Inl err \<Rightarrow> Inl err
                | Inr us \<Rightarrow>
                    Inr (\<lparr> TxOut = \<lparr> TxOut_Value = Vout_Value v, PkScript = pkScript \<rparr>,
                           OutPoint = \<lparr> OutPoint_Hash = txHash,
                                        OutPoint_Index = word_of_int (Outspend_Vin v) \<rparr> \<rparr>
                         # us))))"

text \<open>The closure \<^verbatim>\<open>queryAddr\<close> of \<^verbatim>\<open>queryAddressBalances\<close>; the slice
  \<^verbatim>\<open>targets\<close> it appends to is passed and returned.\<close>

definition queryAddr ::
  "('k, 's, 'p, 'a, 't, 'x) env \<Rightarrow> 'p keyDescriptor \<Rightarrow> ('p, 'a, 't) targetAddr list
     \<Rightarrow> 'a address \<Rightarrow> bytes \<Rightarrow> 't option \<Rightarrow> 'x error + ('p, 'a, 't) targetAddr list" where
  "queryAddr E kd targets address scr tree =
     (case Unspent E (EncodeAddress E address) of
        Inl err \<Rightarrow> Inl (Wrap ''could not query unspent'' (External err))
      | Inr unspent \<Rightarrow>
          if length unspent > 0
          then (case parseUtxos E unspent of
                  Inl err \<Rightarrow> Inl err
                | Inr us \<Rightarrow>
                    Inr (targets @ [\<lparr> addr = address, keyDesc = kd, tweak = [], utxos = us,
                                      script = scr, scriptTree = tree \<rparr>]))
          else Inr targets)"

definition queryAddressBalances ::
  "('k, 's, 'p, 'a, 't, 'x) env \<Rightarrow> 'p \<Rightarrow> 'p keyDescriptor
     \<Rightarrow> 'x error + ('p, 'a, 't) targetAddr list" where
  "queryAddressBalances E pubKey kd =
     (case P2WKHAddr E pubKey of
        Inl err \<Rightarrow> Inl err
      | Inr p2wkh \<Rightarrow>
     (case queryAddr E kd [] p2wkh [] None of
        Inl err \<Rightarrow> Inl err
      | Inr targets \<Rightarrow>
     (case P2AnchorStaticRemote E pubKey of
        Inl err \<Rightarrow> Inl err
      | Inr (p2anchor, scr) \<Rightarrow>
     (case queryAddr E kd targets p2anchor scr None of
        Inl err \<Rightarrow> Inl err
      | Inr targets \<Rightarrow>
     (case P2TaprootStaticRemote E pubKey of
        Inl err \<Rightarrow> Inl err
      | Inr (p2tr, tree) \<Rightarrow> queryAddr E kd targets p2tr [] (Some tree))))))"

text \<open>\<^verbatim>\<open>fmt.Sprintf("%d", n)\<close> for an unsigned \<open>n\<close>.\<close>

function itoa :: "nat \<Rightarrow> string" where
  "itoa n = (if n < 10 then [''0123456789'' ! n]
             else itoa (n div 10) @ [''0123456789'' ! (n mod 10)])"
  by pat_completeness auto
termination
  by (relation "measure id") auto

definition scanPath :: "('k, 's, 'p, 'a, 't, 'x) env \<Rightarrow> u32 \<Rightarrow> string" where
  "scanPath E index =
     ''m/1017'/'' @ itoa (unat (HDCoinType E)) @ [apostrophe] @ ''/''
       @ itoa (unat (KeyFamilyPaymentBase E)) @ [apostrophe] @ ''/0/'' @ itoa (unat index)"

text \<open>The first half of the body of the scanning loop: from the index to the
  public key of the payment-base key at that index.\<close>

definition derivePaymentBase ::
  "('k, 's, 'p, 'a, 't, 'x) env \<Rightarrow> 'k \<Rightarrow> u32 \<Rightarrow> 'x error + 'p" where
  "derivePaymentBase E extendedKey index =
     (case ParsePath (scanPath E index) of
        Inl err \<Rightarrow> Inl (Wrap ''error parsing path'' err)
      | Inr parsedPath \<Rightarrow>
     (case DeriveChildren (keychain E) extendedKey parsedPath of
        Inl err \<Rightarrow> Inl (Wrap ''eror deriving children'' err)
      | Inr hdKey \<Rightarrow>
     (case ECPrivKey E hdKey of
        Inl err \<Rightarrow> Inl (Wrap ''could not derive private key'' (External err))
      | Inr privKey \<Rightarrow> Inr (PrivKey_PubKey E privKey))))"

definition scanIndex ::
  "('k, 's, 'p, 'a, 't, 'x) env \<Rightarrow> 'k \<Rightarrow> u32 \<Rightarrow> 'x error + ('p, 'a, 't) targetAddr list" where
  "scanIndex E extendedKey index =
     (case derivePaymentBase E extendedKey index of
        Inl err \<Rightarrow> Inl err
      | Inr pubKey \<Rightarrow>
          (case queryAddressBalances E pubKey
                  \<lparr> Family = KeyFamilyPaymentBase E, Index = index, PubKey = pubKey \<rparr> of
             Inl err \<Rightarrow> Inl (Wrap ''could not query API for addresses with funds'' err)
           | Inr foundTargets \<Rightarrow> Inr foundTargets))"

fun scanLoop ::
  "('k, 's, 'p, 'a, 't, 'x) env \<Rightarrow> 'k \<Rightarrow> ('p, 'a, 't) targetAddr list \<Rightarrow> u32 list
     \<Rightarrow> 'x error + ('p, 'a, 't) targetAddr list" where
  "scanLoop E extendedKey targets [] = Inr targets"
| "scanLoop E extendedKey targets (index # rest) =
     (case scanIndex E extendedKey index of
        Inl err \<Rightarrow> Inl err
      | Inr foundTargets \<Rightarrow> scanLoop E extendedKey (targets @ foundTargets) rest)"

text \<open>\<^verbatim>\<open>for index := range recoveryWindow\<close>: the indices from 0, ascending.\<close>

definition scanTargets ::
  "('k, 's, 'p, 'a, 't, 'x) env \<Rightarrow> 'k \<Rightarrow> u32 \<Rightarrow> 'x error + ('p, 'a, 't) targetAddr list" where
  "scanTargets E extendedKey recoveryWindow =
     scanLoop E extendedKey [] (map of_nat [0..<unat recoveryWindow])"

section \<open>cmd/chantools/sweepremoteclosed.go: ancient channels\<close>

fun findAncientChannels_loop ::
  "('k, 's, 'p, 'a, 't, 'x) env \<Rightarrow> u32 \<Rightarrow> ancientChannel list \<Rightarrow> ancientChannel list
     \<Rightarrow> 'x error + ancientChannel list" where
  "findAncientChannels_loop E numKeys foundChannels [] = Inr foundChannels"
| "findAncientChannels_loop E numKeys foundChannels (channel # rest) =
     (case hex_DecodeString E (CP channel) of
        Inl err \<Rightarrow> Inl (Wrap ''unable to decode commit point'' (External err))
      | Inr commitPointBytes \<Rightarrow>
     (case ParsePubKey E commitPointBytes of
        Inl err \<Rightarrow> Inl (Wrap ''unable to parse commit point'' (External err))
      | Inr commitPoint \<Rightarrow>
     (case ParseAddress E (Addr channel) of
        Inl err \<Rightarrow> Inl err
      | Inr a \<Rightarrow>
     (case keyInCache E numKeys (Address_String E a) commitPoint of
        Inr _ \<Rightarrow> findAncientChannels_loop E numKeys (foundChannels @ [channel]) rest
      | Inl err \<Rightarrow>
          if is_errAddrNotFound err
          then findAncientChannels_loop E numKeys foundChannels rest
          else Inl err))))"

definition findAncientChannels ::
  "('k, 's, 'p, 'a, 't, 'x) env \<Rightarrow> ancientChannel list \<Rightarrow> u32 \<Rightarrow> 'k
     \<Rightarrow> 'x error + ancientChannel list" where
  "findAncientChannels E channels numKeys key =
     (case fillCache E numKeys key of
        Some err \<Rightarrow> Inl err
      | None \<Rightarrow> findAncientChannels_loop E numKeys [] channels)"

fun ancientTargets_loop ::
  "('k, 's, 'p, 'a, 't, 'x) env \<Rightarrow> u32 \<Rightarrow> ('p, 'a, 't) targetAddr list \<Rightarrow> ancientChannel list
     \<Rightarrow> 'x error + ('p, 'a, 't) targetAddr list" where
  "ancientTargets_loop E numKeys targets [] = Inr targets"
| "ancientTargets_loop E numKeys targets (channel # rest) =
     (case ParseOutpoint E (OP channel) of
        Inl err \<Rightarrow> Inl (Wrap ''unable to parse outpoint'' err)
      | Inr op \<Rightarrow>
     (case hex_DecodeString E (CP channel) of
        Inl err \<Rightarrow> Inl (Wrap ''unable to decode commit point'' (External err))
      | Inr commitPointBytes \<Rightarrow>
     (case ParsePubKey E commitPointBytes of
        Inl err \<Rightarrow> Inl (Wrap ''unable to parse commit point'' (External err))
      | Inr commitPoint \<Rightarrow>
     (case ParseAddress E (Addr channel) of
        Inl err \<Rightarrow> Inl err
      | Inr a \<Rightarrow>
     (case Transaction E (Hash_String E (OutPoint_Hash op)) of
        Inl err \<Rightarrow> Inl (Wrap ''could not query transaction'' (External err))
      | Inr txVout \<Rightarrow>
          if \<not> unat (OutPoint_Index op) < length txVout
          then Inl (Panic ''index out of range'')
          else
     (case hex_DecodeString E (ScriptPubkey (txVout ! unat (OutPoint_Index op))) of
        Inl err \<Rightarrow> Inl (Wrap ''could not decode script pubkey'' (External err))
      | Inr pkScript \<Rightarrow>
          (let txOut = \<lparr> TxOut_Value = Vout_Value (txVout ! unat (OutPoint_Index op)),
                         PkScript = pkScript \<rparr>
           in case keyInCache E numKeys (Address_String E a) commitPoint of
                Inl err \<Rightarrow> Inl err
              | Inr (kd, tw) \<Rightarrow>
                  ancientTargets_loop E numKeys
                    (targets @ [\<lparr> addr = a, keyDesc = kd, tweak = tw,
                                  utxos = [\<lparr> TxOut = txOut, OutPoint = op \<rparr>],
                                  script = [], scriptTree = None \<rparr>])
                    rest)))))))"

definition checkAncientChannelPoints ::
  "('k, 's, 'p, 'a, 't, 'x) env \<Rightarrow> u32 \<Rightarrow> 'k \<Rightarrow> 'x error + ('p, 'a, 't) targetAddr list" where
  "checkAncientChannelPoints E numKeys key =
     (case ancientChannelPoints E of
        Inl err \<Rightarrow> Inl (External err)
      | Inr channels \<Rightarrow>
          (case findAncientChannels E channels numKeys key of
             Inl err \<Rightarrow> Inl err
           | Inr ancientChannels \<Rightarrow> ancientTargets_loop E numKeys [] ancientChannels))"

section \<open>cmd/chantools/sweepremoteclosed.go: building and signing\<close>

text \<open>The variables the loop over the targets' outputs updates.\<close>

record 'p sweepState =
  totalOutputValue :: u64
  prevOutFetcher :: prevOutFetcher
  sweepTxIn :: "txIn list"
  estimator :: "est_call list"
  signDescs :: "'p signDescriptor option list"

text \<open>
  The body of the inner loop, for one output of one target.  The input is
  appended with the maximal sequence number and the type switch then sets it
  to 1 for a witness-script-hash or taproot address.  An address of another
  type matches no case and leaves a \<^verbatim>\<open>nil\<close> descriptor.
\<close>

definition addUtxo ::
  "('k, 's, 'p, 'a, 't, 'x) env \<Rightarrow> ('p, 'a, 't) targetAddr \<Rightarrow> 'p sweepState \<Rightarrow> utxo
     \<Rightarrow> 'x error + 'p sweepState" where
  "addUtxo E target st u =
     (let total = totalOutputValue st + TxOut_Value (TxOut u);
          fetcher = prevOutFetcher st @ [(OutPoint u, TxOut u)];
          txIn = \<lparr> PreviousOutPoint = OutPoint u, Witness = [], Sequence = MaxTxInSequenceNum \<rparr>;
          inputIndex = length (sweepTxIn st @ [txIn]) - 1
      in case addr target of
           AddressWitnessPubKeyHash _ \<Rightarrow>
             Inr \<lparr> totalOutputValue = total, prevOutFetcher = fetcher,
                   sweepTxIn = sweepTxIn st @ [txIn],
                   estimator = estimator st @ [AddP2WKHInput],
                   signDescs = signDescs st @
                     [Some \<lparr> KeyDesc = keyDesc target, WitnessScript = script target,
                             SingleTweak = tweak target, Output = TxOut u,
                             HashType = SigHashAll, ControlBlock = [],
                             InputIndex = inputIndex, SignMethod = WitnessV0SignMethod,
                             TapTweak = [], SigHashes = None \<rparr>] \<rparr>
         | AddressWitnessScriptHash _ \<Rightarrow>
             Inr \<lparr> totalOutputValue = total, prevOutFetcher = fetcher,
                   sweepTxIn = sweepTxIn st @ [txIn \<lparr> Sequence := 1 \<rparr>],
                   estimator = estimator st @ [AddWitnessInput (ToRemoteConfirmedWitnessSize E)],
                   signDescs = signDescs st @
                     [Some \<lparr> KeyDesc = keyDesc target, WitnessScript = script target,
                             SingleTweak = [], Output = TxOut u,
                             HashType = SigHashAll, ControlBlock = [],
                             InputIndex = inputIndex, SignMethod = WitnessV0SignMethod,
                             TapTweak = [], SigHashes = None \<rparr>] \<rparr>
         | AddressTaproot _ \<Rightarrow>
             (case scriptTree target of
                None \<Rightarrow> Inl (Panic ''nil pointer dereference'')
              | Some tree \<Rightarrow>
                  (case SuccessCtrlBlockBytes E tree of
                     Inl err \<Rightarrow> Inl (External err)
                   | Inr controlBlockBytes \<Rightarrow>
                       Inr \<lparr> totalOutputValue = total, prevOutFetcher = fetcher,
                             sweepTxIn = sweepTxIn st @ [txIn \<lparr> Sequence := 1 \<rparr>],
                             estimator = estimator st
                               @ [AddWitnessInput (TaprootToRemoteWitnessSize E)],
                             signDescs = signDescs st @
                               [Some \<lparr> KeyDesc = keyDesc target,
                                       WitnessScript = SettleLeaf_Script E tree,
                                       SingleTweak = [], Output = TxOut u,
                                       HashType = SigHashDefault,
                                       ControlBlock = controlBlockBytes,
                                       InputIndex = inputIndex,
                                       SignMethod = TaprootScriptSpendSignMethod,
                                       TapTweak = TapscriptRoot E tree,
                                       SigHashes = None \<rparr>] \<rparr>))
         | _ \<Rightarrow>
             Inr \<lparr> totalOutputValue = total, prevOutFetcher = fetcher,
                   sweepTxIn = sweepTxIn st @ [txIn],
                   estimator = estimator st,
                   signDescs = signDescs st @ [None] \<rparr>)"

fun addUtxos ::
  "('k, 's, 'p, 'a, 't, 'x) env \<Rightarrow> ('p, 'a, 't) targetAddr \<Rightarrow> 'p sweepState \<Rightarrow> utxo list
     \<Rightarrow> 'x error + 'p sweepState" where
  "addUtxos E target st [] = Inr st"
| "addUtxos E target st (u # us) =
     (case addUtxo E target st u of
        Inl err \<Rightarrow> Inl err
      | Inr st' \<Rightarrow> addUtxos E target st' us)"

fun addTargets ::
  "('k, 's, 'p, 'a, 't, 'x) env \<Rightarrow> 'p sweepState \<Rightarrow> ('p, 'a, 't) targetAddr list
     \<Rightarrow> 'x error + 'p sweepState" where
  "addTargets E st [] = Inr st"
| "addTargets E st (target # targets) =
     (case addUtxos E target st (utxos target) of
        Inl err \<Rightarrow> Inl err
      | Inr st' \<Rightarrow> addTargets E st' targets)"

definition setWitness :: "msgTx \<Rightarrow> nat \<Rightarrow> bytes list \<Rightarrow> msgTx" where
  "setWitness tx idx witness = tx \<lparr> TxIn := (TxIn tx) [idx := (TxIn tx ! idx) \<lparr> Witness := witness \<rparr>] \<rparr>"

text \<open>
  The body of the signing loop \<^verbatim>\<open>for idx, desc := range signDescs\<close>, up to
  the witness it computes.  A \<^verbatim>\<open>nil\<close> descriptor is dereferenced at
  \<^verbatim>\<open>desc.SigHashes = sigHashes\<close>.
\<close>

definition signInput ::
  "('k, 's, 'p, 'a, 't, 'x) env \<Rightarrow> (msgTx \<times> prevOutFetcher) \<Rightarrow> nat \<Rightarrow> msgTx
     \<Rightarrow> 'p signDescriptor option \<Rightarrow> 'x error + bytes list" where
  "signInput E sigHashes idx sweepTx d =
     (case d of
        None \<Rightarrow> Inl (Panic ''nil pointer dereference'')
      | Some desc0 \<Rightarrow>
          (let desc = desc0 \<lparr> SigHashes := Some sigHashes, InputIndex := idx \<rparr>
           in if SignMethod desc = TaprootScriptSpendSignMethod
              then (case TaprootCommitSpendSuccess E desc sweepTx of
                      Inl err \<Rightarrow> Inl (External err)
                    | Inr witness \<Rightarrow> Inr witness)
              else if length (WitnessScript desc) > 0
              then (case CommitSpendToRemoteConfirmed E desc sweepTx of
                      Inl err \<Rightarrow> Inl (External err)
                    | Inr witness \<Rightarrow> Inr witness)
              else (let desc = desc \<lparr> WitnessScript := PkScript (Output desc) \<rparr>
                    in case CommitSpendNoDelay E desc sweepTx of
                         Inl err \<Rightarrow> Inl (External err)
                       | Inr witness \<Rightarrow> Inr witness)))"

fun signInputs ::
  "('k, 's, 'p, 'a, 't, 'x) env \<Rightarrow> (msgTx \<times> prevOutFetcher) \<Rightarrow> nat \<Rightarrow> msgTx
     \<Rightarrow> 'p signDescriptor option list \<Rightarrow> 'x error + msgTx" where
  "signInputs E sigHashes idx sweepTx [] = Inr sweepTx"
| "signInputs E sigHashes idx sweepTx (d # ds) =
     (case signInput E sigHashes idx sweepTx d of
        Inl err \<Rightarrow> Inl err
      | Inr witness \<Rightarrow>
          if \<not> idx < length (TxIn sweepTx) then Inl (Panic ''index out of range'')
          else signInputs E sigHashes (idx + 1) (setWitness sweepTx idx witness) ds)"

text \<open>
  \<^verbatim>\<open>sweepRemoteClosed\<close> from \<^verbatim>\<open>// Create estimator and transaction template\<close>
  to the end of the signing loop: the sweep builder and signer.  \<open>est0\<close> is
  the estimator as \<^verbatim>\<open>PrepareWalletAddress\<close> left it.  \<^verbatim>\<open>1000 * feeRate\<close> is a
  32-bit product.
\<close>

definition totalFee ::
  "('k, 's, 'p, 'a, 't, 'x) env \<Rightarrow> u32 \<Rightarrow> est_call list \<Rightarrow> i64" where
  "totalFee E feeRate est =
     (let feeRateKWeight = FeePerKWeight E (ucast (1000 * feeRate))
      in FeeForWeight E feeRateKWeight (Weight E est))"

definition buildAndSign ::
  "('k, 's, 'p, 'a, 't, 'x) env \<Rightarrow> ('p, 'a, 't) targetAddr list \<Rightarrow> bytes \<Rightarrow> est_call list
     \<Rightarrow> u32 \<Rightarrow> 'x error + msgTx" where
  "buildAndSign E targets sweepScript est0 feeRate =
     (case addTargets E \<lparr> totalOutputValue = 0, prevOutFetcher = [], sweepTxIn = [],
                           estimator = est0, signDescs = [] \<rparr> targets of
        Inl err \<Rightarrow> Inl err
      | Inr st \<Rightarrow>
          if length targets = 0 \<or> totalOutputValue st < sweepDustLimit
          then Inl (ErrDustLimit (length targets) (totalOutputValue st))
          else
            (let fee = totalFee E feeRate (estimator st);
                 sweepTx = \<lparr> Version = 2, TxIn = sweepTxIn st,
                              TxOuts = [\<lparr> TxOut_Value = totalOutputValue st - fee,
                                          PkScript = sweepScript \<rparr>],
                              LockTime = 0 \<rparr>;
                 sigHashes = (sweepTx, prevOutFetcher st)
             in signInputs E sigHashes 0 sweepTx (signDescs st)))"

definition finishSweep ::
  "('k, 's, 'p, 'a, 't, 'x) env \<Rightarrow> ('p, 'a, 't) targetAddr list \<Rightarrow> bytes \<Rightarrow> est_call list
     \<Rightarrow> u32 \<Rightarrow> bool \<Rightarrow> 'x error + msgTx" where
  "finishSweep E targets sweepScript est0 feeRate publish =
     (case buildAndSign E targets sweepScript est0 feeRate of
        Inl err \<Rightarrow> Inl err
      | Inr sweepTx \<Rightarrow>
          (case Serialize E sweepTx of
             Inl err \<Rightarrow> Inl (External err)
           | Inr buf \<Rightarrow>
               if publish
               then (case PublishTx E (hex_EncodeToString E buf) of
                       Inl err \<Rightarrow> Inl (External err)
                     | Inr response \<Rightarrow> Inr sweepTx)
               else Inr sweepTx))"

text \<open>\<^verbatim>\<open>sweepRemoteClosed\<close>; the model returns the transaction the function
  logs (and publishes).\<close>

definition sweepRemoteClosed ::
  "('k, 's, 'p, 'a, 't, 'x) env \<Rightarrow> 'k \<Rightarrow> string \<Rightarrow> u32 \<Rightarrow> u32 \<Rightarrow> bool \<Rightarrow> 'x error + msgTx" where
  "sweepRemoteClosed E extendedKey sweepAddr recoveryWindow feeRate publish =
     (case PrepareWalletAddress E sweepAddr extendedKey of
        Inl err \<Rightarrow> Inl err
      | Inr (sweepScript, est0) \<Rightarrow>
     (case scanTargets E extendedKey recoveryWindow of
        Inl err \<Rightarrow> Inl err
      | Inr targets \<Rightarrow>
          (case checkAncientChannelPoints E recoveryWindow extendedKey of
             Inl err \<Rightarrow>
               if \<not> is_errAddrNotFound err
               then Inl (Wrap ''could not check ancient channel points'' err)
               else finishSweep E targets sweepScript est0 feeRate publish
           | Inr ancientChannelTargets \<Rightarrow>
               finishSweep E
                 (if length ancientChannelTargets > 0
                  then targets @ ancientChannelTargets else targets)
                 sweepScript est0 feeRate publish)))"

section \<open>Specification-side notions for the sweep builder\<close>

text \<open>The outputs a list of targets asks to spend, in order, each with the
  address of its target.\<close>

definition sweepInputs :: "('p, 'a, 't) targetAddr list \<Rightarrow> ('a address \<times> utxo) list" where
  "sweepInputs targets = concat (map (\<lambda>t. map (\<lambda>u. (addr t, u)) (utxos t)) targets)"

definition totalInputValue :: "('p, 'a, 't) targetAddr list \<Rightarrow> u64" where
  "totalInputValue targets = sum_list (map (\<lambda>(a, u). TxOut_Value (TxOut u)) (sweepInputs targets))"

fun weightCalls :: "('k, 's, 'p, 'a, 't, 'x) env \<Rightarrow> 'a address \<Rightarrow> est_call list" where
  "weightCalls E (AddressWitnessPubKeyHash _) = [AddP2WKHInput]"
| "weightCalls E (AddressWitnessScriptHash _) = [AddWitnessInput (ToRemoteConfirmedWitnessSize E)]"
| "weightCalls E (AddressTaproot _) = [AddWitnessInput (TaprootToRemoteWitnessSize E)]"
| "weightCalls E _ = []"

definition estimatedCalls ::
  "('k, 's, 'p, 'a, 't, 'x) env \<Rightarrow> est_call list \<Rightarrow> ('p, 'a, 't) targetAddr list \<Rightarrow> est_call list" where
  "estimatedCalls E est0 targets = est0 @ concat (map (\<lambda>(a, u). weightCalls E a) (sweepInputs targets))"

text \<open>The sequence number the claim gives an input by the kind of output it
  spends; no other kind of output is swept.\<close>

fun inputSequenceOk :: "'a address \<Rightarrow> u32 \<Rightarrow> bool" where
  "inputSequenceOk (AddressWitnessPubKeyHash _) s = (s = 0xffffffff)"
| "inputSequenceOk (AddressWitnessScriptHash _) s = (s = 1)"
| "inputSequenceOk (AddressTaproot _) s = (s = 1)"
| "inputSequenceOk _ s = False"

text \<open>The loop over the targets' outputs runs to its end: no taproot target
  lacks its script tree or its control block.\<close>

definition inputsBuilt ::
  "('k, 's, 'p, 'a, 't, 'x) env \<Rightarrow> est_call list \<Rightarrow> ('p, 'a, 't) targetAddr list \<Rightarrow> bool" where
  "inputsBuilt E est0 targets =
     (case addTargets E \<lparr> totalOutputValue = 0, prevOutFetcher = [], sweepTxIn = [],
                           estimator = est0, signDescs = [] \<rparr> targets of
        Inl _ \<Rightarrow> False | Inr _ \<Rightarrow> True)"

text \<open>The error kind the specification calls \<open>InsufficientFunds\<close>.\<close>

fun failsInsufficientFunds :: "'x error + 'b \<Rightarrow> bool" where
  "failsInsufficientFunds (Inl (ErrDustLimit _ _)) = True"
| "failsInsufficientFunds _ = False"

text \<open>The transaction handed to the signing loop, with the given inputs: its
  single output pays the sweep script the total input value less the fee.\<close>

definition unsignedSweepTx ::
  "('k, 's, 'p, 'a, 't, 'x) env \<Rightarrow> ('p, 'a, 't) targetAddr list \<Rightarrow> bytes \<Rightarrow> est_call list
     \<Rightarrow> u32 \<Rightarrow> txIn list \<Rightarrow> msgTx" where
  "unsignedSweepTx E targets sweepScript est0 feeRate ins =
     \<lparr> Version = 2, TxIn = ins,
       TxOuts = [\<lparr> TxOut_Value = totalInputValue targets
                                    - totalFee E feeRate (estimatedCalls E est0 targets),
                   PkScript = sweepScript \<rparr>],
       LockTime = 0 \<rparr>"

section \<open>Specification-side notions for the balance scanner\<close>

text \<open>
  What the specification expects of one index of the recovery window.  The
  candidates are the public key of the payment-base key at the index and its
  three addresses, in the order plain key hash, anchor script hash, taproot,
  each with its script and script tree.  A lookup is in order when the
  chain-lookup collaborator answers for the address and the outputs it names
  parse.  An address with one or more unspent outputs gives one populated
  target, an address with none gives nothing.
\<close>

definition indexCandidates ::
  "('k, 's, 'p, 'a, 't, 'x) env \<Rightarrow> 'k \<Rightarrow> u32
     \<Rightarrow> ('p \<times> ('a address \<times> bytes \<times> 't option) list) option" where
  "indexCandidates E key index =
     (case derivePaymentBase E key index of
        Inl _ \<Rightarrow> None
      | Inr pk \<Rightarrow>
     (case P2WKHAddr E pk of
        Inl _ \<Rightarrow> None
      | Inr a1 \<Rightarrow>
     (case P2AnchorStaticRemote E pk of
        Inl _ \<Rightarrow> None
      | Inr (a2, scr) \<Rightarrow>
     (case P2TaprootStaticRemote E pk of
        Inl _ \<Rightarrow> None
      | Inr (a3, tree) \<Rightarrow>
          Some (pk, [(a1, [], None), (a2, scr, None), (a3, [], Some tree)])))))"

definition lookupOk :: "('k, 's, 'p, 'a, 't, 'x) env \<Rightarrow> 'a address \<Rightarrow> bool" where
  "lookupOk E a =
     (case Unspent E (EncodeAddress E a) of
        Inl _ \<Rightarrow> False
      | Inr unspent \<Rightarrow> (case parseUtxos E unspent of Inl _ \<Rightarrow> False | Inr _ \<Rightarrow> True))"

definition addressHit ::
  "('k, 's, 'p, 'a, 't, 'x) env \<Rightarrow> 'p keyDescriptor \<Rightarrow> 'a address \<times> bytes \<times> 't option
     \<Rightarrow> ('p, 'a, 't) targetAddr list" where
  "addressHit E kd c =
     (case c of (a, scr, tree) \<Rightarrow>
        (case Unspent E (EncodeAddress E a) of
           Inl _ \<Rightarrow> []
         | Inr unspent \<Rightarrow>
             if unspent = [] then []
             else (case parseUtxos E unspent of
                     Inl _ \<Rightarrow> []
                   | Inr us \<Rightarrow> [\<lparr> addr = a, keyDesc = kd, tweak = [], utxos = us,
                                    script = scr, scriptTree = tree \<rparr>])))"

definition indexScanOk :: "('k, 's, 'p, 'a, 't, 'x) env \<Rightarrow> 'k \<Rightarrow> u32 \<Rightarrow> bool" where
  "indexScanOk E key index =
     (case indexCandidates E key index of
        None \<Rightarrow> False
      | Some (pk, cands) \<Rightarrow> list_all (\<lambda>c. lookupOk E (fst c)) cands)"

definition indexTargets ::
  "('k, 's, 'p, 'a, 't, 'x) env \<Rightarrow> 'k \<Rightarrow> u32 \<Rightarrow> ('p, 'a, 't) targetAddr list" where
  "indexTargets E key index =
     (case indexCandidates E key index of
        None \<Rightarrow> []
      | Some (pk, cands) \<Rightarrow>
          concat (map (addressHit E \<lparr> Family = KeyFamilyPaymentBase E, Index = index,
                                      PubKey = pk \<rparr>) cands))"

section \<open>Specification-side notions for the legacy records\<close>

text \<open>
  The two outcomes of a legacy record that do not end the session: its close
  address is found in the derivation cache, or the record parses and the cache
  answers with the \<open>AddressNotFound\<close> error.
\<close>

definition addressFound ::
  "('k, 's, 'p, 'a, 't, 'x) env \<Rightarrow> u32 \<Rightarrow> ancientChannel \<Rightarrow> bool" where
  "addressFound E numKeys channel =
     (case hex_DecodeString E (CP channel) of
        Inl _ \<Rightarrow> False
      | Inr b \<Rightarrow>
     (case ParsePubKey E b of
        Inl _ \<Rightarrow> False
      | Inr commitPoint \<Rightarrow>
     (case ParseAddress E (Addr channel) of
        Inl _ \<Rightarrow> False
      | Inr a \<Rightarrow>
     (case keyInCache E numKeys (Address_String E a) commitPoint of
        Inl _ \<Rightarrow> False
      | Inr _ \<Rightarrow> True))))"

definition addressNotFound ::
  "('k, 's, 'p, 'a, 't, 'x) env \<Rightarrow> u32 \<Rightarrow> ancientChannel \<Rightarrow> bool" where
  "addressNotFound E numKeys channel =
     (case hex_DecodeString E (CP channel) of
        Inl _ \<Rightarrow> False
      | Inr b \<Rightarrow>
     (case ParsePubKey E b of
        Inl _ \<Rightarrow> False
      | Inr commitPoint \<Rightarrow>
     (case ParseAddress E (Addr channel) of
        Inl _ \<Rightarrow> False
      | Inr a \<Rightarrow>
     (case keyInCache E numKeys (Address_String E a) commitPoint of
        Inl err \<Rightarrow> is_errAddrNotFound err
      | Inr _ \<Rightarrow> False))))"

text \<open>The outcome of the check of the ancient channels that lets the session
  go on: it succeeds, or fails with \<open>AddressNotFound\<close>.\<close>

definition ancientCheckPasses ::
  "('k, 's, 'p, 'a, 't, 'x) env \<Rightarrow> u32 \<Rightarrow> 'k \<Rightarrow> bool" where
  "ancientCheckPasses E numKeys key =
     (case checkAncientChannelPoints E numKeys key of
        Inl err \<Rightarrow> is_errAddrNotFound err
      | Inr _ \<Rightarrow> True)"

text \<open>The sequence number the loop over the outputs leaves on an input, and
  the addresses for which it makes a signing descriptor.\<close>

fun seqOf :: "'a address \<Rightarrow> u32" where
  "seqOf (AddressWitnessScriptHash _) = 1"
| "seqOf (AddressTaproot _) = 1"
| "seqOf _ = MaxTxInSequenceNum"

fun swept :: "'a address \<Rightarrow> bool" where
  "swept (AddressWitnessPubKeyHash _) = True"
| "swept (AddressWitnessScriptHash _) = True"
| "swept (AddressTaproot _) = True"
| "swept _ = False"

section \<open>A stand-in environment\<close>

text \<open>
  Simple functions in place of the libraries, the explorer and the absent
  functions of the repository, for evaluating the model.  Keys are the texts of
  their derivation paths, addresses are the bytes of the key, the explorer
  knows one funded address (the plain key-hash address of the payment-base key
  at index 3, holding 50000), and the derivation cache knows one close address.
  Fees follow lnd: the rate per kilo-weight is a quarter of the rate per
  kilo-vbyte, the fee is rate times weight over 1000 rounded down, and the
  weight is four times the stripped size plus the witness sizes.
\<close>

definition hexEncode :: "bytes \<Rightarrow> string" where
  "hexEncode bs =
     concat (map (\<lambda>b. [''0123456789abcdef'' ! (unat b div 16),
                         ''0123456789abcdef'' ! (unat b mod 16)]) bs)"

definition demo_keychain :: "(string, string) hdkeychain" where
  "demo_keychain =
     \<lparr> DeriveNonStandard = (\<lambda>k i. Inr (k @ ''/'' @ itoa (unat i))),
       Depth = (\<lambda>k. of_nat (length (filter (\<lambda>c. c = CHR ''/'') k))),
       String_of = (\<lambda>k. k),
       NewKeyFromString = (\<lambda>s. Inr s) \<rparr>"

fun demo_encode :: "bytes address \<Rightarrow> string" where
  "demo_encode (AddressWitnessPubKeyHash h) = ''wpkh:'' @ hexEncode h"
| "demo_encode (AddressWitnessScriptHash h) = ''wsh:'' @ hexEncode h"
| "demo_encode (AddressTaproot h) = ''tr:'' @ hexEncode h"
| "demo_encode (AddressPubKeyHash h) = ''pkh:'' @ hexEncode h"
| "demo_encode (AddressScriptHash h) = ''sh:'' @ hexEncode h"
| "demo_encode (AddressPubKey h) = ''pk:'' @ hexEncode h"

fun demo_weight :: "est_call list \<Rightarrow> nat \<times> nat \<times> nat" where
  "demo_weight [] = (0, 0, 0)"
| "demo_weight (c # cs) =
     (case demo_weight cs of (ins, outs, wit) \<Rightarrow>
        (case c of
           AddP2WKHOutput \<Rightarrow> (ins, outs + 31, wit)
         | AddP2TROutput \<Rightarrow> (ins, outs + 43, wit)
         | AddP2WKHInput \<Rightarrow> (ins + 1, outs, wit + 109)
         | AddWitnessInput n \<Rightarrow> (ins + 1, outs, wit + unat n)))"

definition demo_funded :: string where
  "demo_funded = ''wpkh:'' @ hexEncode (bytes_of ''/2147484665/2147483648/2147483651/0/3'')"

definition demo_vout :: vout where
  "demo_vout = \<lparr> Vout_Value = 50000, ScriptPubkey = ''0014'', Outspend_Txid = ''aa'',
                 Outspend_Vin = 1 \<rparr>"

definition demo_env :: "(string, string, string, bytes, bytes, string) env" where
  "demo_env =
     \<lparr> keychain = demo_keychain,
       HDCoinType = 0,
       KeyFamilyPaymentBase = 3,
       ECPrivKey = (\<lambda>k. Inr k),
       PrivKey_PubKey = (\<lambda>s. s),
       PubKey_SerializeCompressed = bytes_of,
       Hash160 = (\<lambda>b. b),
       Sum256 = (\<lambda>b. b),
       NewAddressWitnessPubKeyHash = (\<lambda>h. Inr h),
       NewAddressWitnessScriptHash = (\<lambda>h. Inr h),
       NewAddressTaproot = (\<lambda>h. Inr h),
       CommitScriptToRemoteConfirmed = (\<lambda>p. Inr (bytes_of p @ [1])),
       NewRemoteCommitScriptTree = (\<lambda>p. Inr (bytes_of p @ [2])),
       TaprootKey_bytes = (\<lambda>t. t),
       SettleLeaf_Script = (\<lambda>t. t),
       TapscriptRoot = (\<lambda>t. t),
       SuccessCtrlBlockBytes = (\<lambda>t. Inr t),
       EncodeAddress = demo_encode,
       Address_String = demo_encode,
       DecodeAddress = (\<lambda>s. if s = [] then Inl ''empty address''
                              else Inr (AddressWitnessPubKeyHash (bytes_of s))),
       IsForNet = (\<lambda>a. True),
       ChainName = ''mainnet'',
       ParsePubKey = (\<lambda>b. Inr ''commit point''),
       hex_DecodeString = (\<lambda>s. Inr (bytes_of s)),
       NewHashFromStr = (\<lambda>s. Inr (bytes_of s)),
       Hash_String = hexEncode,
       Unspent = (\<lambda>a. if a = demo_funded then Inr [demo_vout] else Inr []),
       Transaction = (\<lambda>h. Inr [demo_vout]),
       PublishTx = (\<lambda>h. Inr ''ok''),
       ancientChannelPoints =
         Inr [\<lparr> OP = ''bb:0'', Addr = ''unknown'', CP = ''02'' \<rparr>,
              \<lparr> OP = ''cc:0'', Addr = ''known'', CP = ''03'' \<rparr>],
       fillCache = (\<lambda>n k. None),
       keyInCache = (\<lambda>n a p. if a = ''wpkh:'' @ hexEncode (bytes_of ''known'')
                              then Inr (\<lparr> Family = 3, Index = 7, PubKey = ''key 7'' \<rparr>, [9])
                              else Inl ErrAddrNotFound),
       ParseOutpoint = (\<lambda>s. Inr \<lparr> OutPoint_Hash = bytes_of s, OutPoint_Index = 0 \<rparr>),
       PrepareWalletAddress = (\<lambda>a k. Inr (bytes_of a, [AddP2WKHOutput])),
       ToRemoteConfirmedWitnessSize = 112,
       TaprootToRemoteWitnessSize = 137,
       Weight = (\<lambda>cs. case demo_weight cs of
                         (ins, outs, wit) \<Rightarrow> of_nat (4 * (10 + 41 * ins + outs) + 2 + wit)),
       FeePerKWeight = (\<lambda>s. s div 4),
       FeeForWeight = (\<lambda>r w. r * w div 1000),
       TaprootCommitSpendSuccess = (\<lambda>d tx. Inr [ControlBlock d]),
       CommitSpendToRemoteConfirmed = (\<lambda>d tx. Inr [WitnessScript d]),
       CommitSpendNoDelay = (\<lambda>d tx. Inr [WitnessScript d]),
       Serialize = (\<lambda>tx. Inr []),
       hex_EncodeToString = hexEncode \<rparr>"

definition demo_utxo :: "u64 \<Rightarrow> utxo" where
  "demo_utxo v =
     \<lparr> TxOut = \<lparr> TxOut_Value = v, PkScript = [0, 20] \<rparr>,
       OutPoint = \<lparr> OutPoint_Hash = [170], OutPoint_Index = 1 \<rparr> \<rparr>"

definition demo_target :: "bytes address \<Rightarrow> u64 \<Rightarrow> (string, bytes, bytes) targetAddr" where
  "demo_target a v =
     \<lparr> addr = a, keyDesc = \<lparr> Family = 3, Index = 3, PubKey = ''key 3'' \<rparr>, tweak = [],
       utxos = [demo_utxo v],
       script = (case a of AddressWitnessScriptHash _ \<Rightarrow> [81] | _ \<Rightarrow> []),
       scriptTree = (case a of AddressTaproot _ \<Rightarrow> Some [82] | _ \<Rightarrow> None) \<rparr>"

definition demo_targets :: "(string, bytes, bytes) targetAddr list" where
  "demo_targets =
     [demo_target (AddressWitnessPubKeyHash [1]) 50000,
      demo_target (AddressWitnessScriptHash [2]) 700,
      demo_target (AddressTaproot [3]) 800]"

definition demo_tx :: msgTx where
  "demo_tx =
     \<lparr> Version = 2,
       TxIn = [\<lparr> PreviousOutPoint = \<lparr> OutPoint_Hash = [170], OutPoint_Index = 1 \<rparr>,
                Witness = [[0, 20]], Sequence = 0xffffffff \<rparr>,
              \<lparr> PreviousOutPoint = \<lparr> OutPoint_Hash = [170], OutPoint_Index = 1 \<rparr>,
                Witness = [[81]], Sequence = 1 \<rparr>,
              \<lparr> PreviousOutPoint = \<lparr> OutPoint_Hash = [170], OutPoint_Index = 1 \<rparr>,
                Witness = [[82]], Sequence = 1 \<rparr>],
       TxOuts = [\<lparr> TxOut_Value = 48960, PkScript = [7] \<rparr>],
       LockTime = 0 \<rparr>"

definition demo_found :: "(string, bytes, bytes) targetAddr" where
  "demo_found =
     \<lparr> addr = AddressWitnessPubKeyHash (bytes_of ''/2147484665/2147483648/2147483651/0/3''),
       keyDesc = \<lparr> Family = 3, Index = 3,
                   PubKey = ''/2147484665/2147483648/2147483651/0/3'' \<rparr>,
       tweak = [],
       utxos = [\<lparr> TxOut = \<lparr> TxOut_Value = 50000, PkScript = bytes_of ''0014'' \<rparr>,
                  OutPoint = \<lparr> OutPoint_Hash = bytes_of ''aa'', OutPoint_Index = 1 \<rparr> \<rparr>],
       script = [], scriptTree = None \<rparr>"

definition demo_unknown :: ancientChannel where
  "demo_unknown = \<lparr> OP = ''bb:0'', Addr = ''unknown'', CP = ''02'' \<rparr>"

definition demo_known :: ancientChannel where
  "demo_known = \<lparr> OP = ''cc:0'', Addr = ''known'', CP = ''03'' \<rparr>"

definition demo_env_no_cache :: "(string, string, string, bytes, bytes, string) env" where
  "demo_env_no_cache = demo_env \<lparr> fillCache := (\<lambda>n k. Some ErrAddrNotFound) \<rparr>"

definition demo_ancient_target :: "(string, bytes, bytes) targetAddr" where
  "demo_ancient_target =
     \<lparr> addr = AddressWitnessPubKeyHash (bytes_of ''known''),
       keyDesc = \<lparr> Family = 3, Index = 7, PubKey = ''key 7'' \<rparr>,
       tweak = [9],
       utxos = [\<lparr> TxOut = \<lparr> TxOut_Value = 50000, PkScript = bytes_of ''0014'' \<rparr>,
                  OutPoint = \<lparr> OutPoint_Hash = bytes_of ''cc:0'', OutPoint_Index = 0 \<rparr> \<rparr>],
       script = [], scriptTree = None \<rparr>"

definition demo_session_tx :: msgTx where
  "demo_session_tx =
     \<lparr> Version = 2,
       TxIn = [\<lparr> PreviousOutPoint = \<lparr> OutPoint_Hash = bytes_of ''aa'', OutPoint_Index = 1 \<rparr>,
                Witness = [bytes_of ''0014''], Sequence = 0xffffffff \<rparr>,
              \<lparr> PreviousOutPoint = \<lparr> OutPoint_Hash = bytes_of ''cc:0'', OutPoint_Index = 0 \<rparr>,
                Witness = [bytes_of ''0014''], Sequence = 0xffffffff \<rparr>],
       TxOuts = [\<lparr> TxOut_Value = 98220, PkScript = bytes_of ''bc1q'' \<rparr>],
       LockTime = 0 \<rparr>"

section \<open>Properties of DeriveChildren\<close>

lemma DeriveChildren_loop_variant:
  assumes "depth_law L"
    and "unat (Depth L k) = idx"
    and "rest = drop idx path"
    and "idx \<le> length path"
  shows "DeriveChildren_loop L path idx k rest = variant_bip32 L k rest"
  using assms(2-4)
proof (induction rest arbitrary: idx k)
  case Nil
  then show ?case by simp
next
  case (Cons seg segs)
  have lt: "idx < length path"
    using Cons.prems by (metis drop_eq_Nil2 list.distinct(1) not_le)
  have nth: "path ! idx = seg"
    using Cons.prems lt by (metis nth_via_drop)
  have segs: "segs = drop (Suc idx) path"
    using Cons.prems by (metis drop_Suc tl_drop list.sel(3))
  show ?case
  proof (cases "DeriveNonStandard L k seg")
    case (Inl e)
    then show ?thesis by simp
  next
    case (Inr d)
    have dd: "unat (Depth L d) = Suc idx"
      using assms(1) Inr Cons.prems(1) unfolding depth_law_def by blast
    have two: "Depth L d = 2 \<longleftrightarrow> idx = 1"
    proof
      assume "Depth L d = 2"
      then have "unat (Depth L d) = 2" by simp
      with dd show "idx = 1" by simp
    next
      assume "idx = 1"
      with dd have "unat (Depth L d) = unat (2 :: u8)" by simp
      then show "Depth L d = 2" by (simp only: word_unat_eq_iff)
    qed
    have rt: "\<And>k'. NewKeyFromString L (String_of L d) = Inr k' \<Longrightarrow> unat (Depth L k') = Suc idx"
      using assms(1) dd unfolding depth_law_def by metis
    have ih: "\<And>k'. unat (Depth L k') = Suc idx \<Longrightarrow>
        DeriveChildren_loop L path (idx + 1) k' segs = variant_bip32 L k' segs"
      using Cons.IH [OF _ segs] lt by simp
    define nextID where
      "nextID = (if Depth L d = 2 \<and> length path > 2
                 then path ! (idx + 1) - HardenedKeyStart else 0)"
    define cond where
      "cond \<longleftrightarrow> (Depth L d = 2 \<and> nextID \<noteq> 0) \<or> (Depth L d = 3 \<and> seg - HardenedKeyStart \<noteq> 0)"
    have nopanic: "\<not> (Depth L d = 2 \<and> length path > 2 \<and> \<not> idx + 1 < length path)"
    proof
      assume a: "Depth L d = 2 \<and> length path > 2 \<and> \<not> idx + 1 < length path"
      then have "idx = 1" using two by simp
      with a show False by (simp add: eval_nat_numeral)
    qed
    have nxt: "(Depth L d = 2 \<and> nextID \<noteq> 0) \<longleftrightarrow> (Depth L d = 2 \<and> next_index_nonzero segs)"
    proof (cases "Depth L d = 2")
      case False
      then show ?thesis by simp
    next
      case True
      then have i1: "idx = 1" using two by simp
      have "segs = drop 2 path" using segs i1 by (simp add: eval_nat_numeral)
      then have len: "length path > 2 \<longleftrightarrow> segs \<noteq> []" by auto
      show ?thesis
      proof (cases segs)
        case Nil
        then have "\<not> length path > 2" using len by simp
        then show ?thesis using Nil by (simp add: nextID_def)
      next
        case (Cons n ns)
        then have l2: "length path > 2" using len by simp
        have "path ! (idx + 1) = n"
          using segs Cons l2 i1 by (metis Suc_eq_plus1 nth_via_drop)
        then show ?thesis using True l2 Cons by (simp add: segment_index_def nextID_def)
      qed
    qed
    have cond': "cond \<longleftrightarrow> (Depth L d = 2 \<and> next_index_nonzero segs)
            \<or> (Depth L d = 3 \<and> segment_index seg \<noteq> 0)"
      unfolding cond_def nxt segment_index_def ..
    have step: "DeriveChildren_loop L path idx k (seg # segs) =
        (if cond
         then (case NewKeyFromString L (String_of L d) of
                 Inl err \<Rightarrow> Inl (External err)
               | Inr k'' \<Rightarrow> DeriveChildren_loop L path (idx + 1) k'' segs)
         else DeriveChildren_loop L path (idx + 1) d segs)"
      using nopanic
      by (simp only: DeriveChildren_loop.simps Inr sum.case Let_def cond_def nextID_def if_False)
    have "variant_bip32 L k (seg # segs) =
        (if cond
         then (case NewKeyFromString L (String_of L d) of
                 Inl err \<Rightarrow> Inl (External err)
               | Inr k'' \<Rightarrow> variant_bip32 L k'' segs)
         else variant_bip32 L d segs)"
      by (simp only: variant_bip32.simps Inr sum.case cond')
    moreover have "DeriveChildren_loop L path (idx + 1) d segs = variant_bip32 L d segs"
      using ih dd by simp
    moreover have "(case NewKeyFromString L (String_of L d) of
                 Inl err \<Rightarrow> Inl (External err)
               | Inr k'' \<Rightarrow> DeriveChildren_loop L path (idx + 1) k'' segs)
         = (case NewKeyFromString L (String_of L d) of
                 Inl err \<Rightarrow> Inl (External err)
               | Inr k'' \<Rightarrow> variant_bip32 L k'' segs)"
      using ih rt by (cases "NewKeyFromString L (String_of L d)") simp_all
    ultimately show ?thesis
      using step by simp
  qed
qed

lemma variant_short_plain:
  assumes "depth_law L" and "unat (Depth L k) + length segs \<le> 2"
  shows "variant_bip32 L k segs = plain_bip32 L k segs"
  using assms(2)
proof (induction segs arbitrary: k)
  case Nil
  then show ?case by simp
next
  case (Cons seg segs)
  show ?case
  proof (cases "DeriveNonStandard L k seg")
    case (Inl e)
    then show ?thesis by simp
  next
    case (Inr d)
    have dd: "unat (Depth L d) = Suc (unat (Depth L k))"
      using assms(1) Inr unfolding depth_law_def by blast
    have le: "unat (Depth L d) + length segs \<le> 2"
      using dd Cons.prems by simp
    have n3: "Depth L d \<noteq> 3"
    proof
      assume "Depth L d = 3"
      then have "unat (Depth L d) = 3" by simp
      with le show False by simp
    qed
    have n2: "Depth L d = 2 \<Longrightarrow> segs = []"
    proof -
      assume "Depth L d = 2"
      then have "unat (Depth L d) = 2" by simp
      with le show "segs = []" by simp
    qed
    show ?thesis
      using Inr n3 n2 Cons.IH [OF le] by auto
  qed
qed

lemma variant_non_hardened_plain:
  assumes "string_form_law L"
    and "\<forall>seg \<in> set segs. seg < HardenedKeyStart"
    and "String_of L k = String_of L k'"
  shows "same_result L (variant_bip32 L k segs) (plain_bip32 L k' segs)"
  using assms(2,3)
proof (induction segs arbitrary: k k')
  case Nil
  then show ?case by simp
next
  case (Cons seg segs)
  have parses: "\<And>k. \<exists>k'. NewKeyFromString L (String_of L k) = Inr k'"
    using assms(1) unfolding string_form_law_def by blast
  have keeps: "\<And>k k'. NewKeyFromString L (String_of L k) = Inr k'
      \<Longrightarrow> String_of L k' = String_of L k"
    using assms(1) unfolding string_form_law_def by blast
  have child: "\<And>k k' i. i < HardenedKeyStart \<Longrightarrow> String_of L k = String_of L k'
      \<Longrightarrow> DeriveNonStandard L k i = DeriveNonStandard L k' i"
    using assms(1) unfolding string_form_law_def by blast
  have lt: "seg < HardenedKeyStart" and rest: "\<forall>seg \<in> set segs. seg < HardenedKeyStart"
    using Cons.prems(1) by simp_all
  have eq: "DeriveNonStandard L k seg = DeriveNonStandard L k' seg"
    using child [OF lt Cons.prems(2)] .
  show ?case
  proof (cases "DeriveNonStandard L k' seg")
    case (Inl e)
    then show ?thesis using eq by simp
  next
    case (Inr d)
    obtain d' where d': "NewKeyFromString L (String_of L d) = Inr d'"
      using parses by blast
    have s: "String_of L d' = String_of L d"
      using keeps [OF d'] .
    have 1: "same_result L (variant_bip32 L d segs) (plain_bip32 L d segs)"
      using Cons.IH [OF rest, of d d] by simp
    have 2: "same_result L (variant_bip32 L d' segs) (plain_bip32 L d segs)"
      using Cons.IH [OF rest s] .
    have p: "plain_bip32 L k' (seg # segs) = plain_bip32 L d segs"
      using Inr by simp
    have "variant_bip32 L k (seg # segs) = variant_bip32 L d' segs
        \<or> variant_bip32 L k (seg # segs) = variant_bip32 L d segs"
      using eq Inr d' by simp
    then show ?thesis
      using 1 2 p by metis
  qed
qed

text \<open>
  C1.  For a root key (depth 0) of a key library in which a derivation step
  goes one level deeper and the string round trip keeps the depth,
  \<open>DeriveChildren\<close> is the Variant-BIP32 derivation: on every path it
  round-trips the derived key exactly at depth 2 when the next segment's index
  is non-zero and at depth 3 when the current segment's index is non-zero (and
  it never reads past the end of the path).  On a path that stays below the
  depths where the round trip applies, that is a path of at most two segments,
  it returns what plain iterative child derivation returns, whether or not the
  segments are hardened.  On a path of any length whose segments are all
  non-hardened the round trip is applied (the index of a non-hardened segment
  is never zero) but changes nothing: when the string form of a key parses
  back to a key with the same string form and a non-hardened child depends on
  its parent through the string form only, \<open>DeriveChildren\<close> and plain
  iterative derivation return the same error or keys with the same string
  form.
\<close>

theorem DeriveChildren_variant_bip32:
  assumes "depth_law L" and "Depth L root = 0"
  shows "DeriveChildren L root path = variant_bip32 L root path
       \<and> (length path \<le> 2 \<longrightarrow> DeriveChildren L root path = plain_bip32 L root path)
       \<and> (string_form_law L \<and> (\<forall>seg \<in> set path. seg < HardenedKeyStart)
            \<longrightarrow> same_result L (DeriveChildren L root path) (plain_bip32 L root path))"
proof -
  have v: "DeriveChildren L root path = variant_bip32 L root path"
    unfolding DeriveChildren_def
    using DeriveChildren_loop_variant [OF assms(1), of root 0 path path] assms(2) by simp
  have s: "length path \<le> 2 \<Longrightarrow> variant_bip32 L root path = plain_bip32 L root path"
    using variant_short_plain [OF assms(1), of root path] assms(2) by simp
  have n: "string_form_law L \<and> (\<forall>seg \<in> set path. seg < HardenedKeyStart)
      \<Longrightarrow> same_result L (variant_bip32 L root path) (plain_bip32 L root path)"
    using variant_non_hardened_plain [of L path root root] by simp
  show ?thesis
    unfolding v using s n by blast
qed

lemma u8_Suc: "n < 255 \<Longrightarrow> unat (of_nat (Suc n) :: u8) = Suc (unat (of_nat n :: u8))"
  by (simp add: unat_of_nat del: of_nat_Suc)

lemma trace_depth_step:
  "trace_depth (s @ ''d'') = Suc (trace_depth s)" "trace_depth (s @ ''dq'') = Suc (trace_depth s)"
  by (simp_all add: trace_depth_def)

lemma depth_law_padded: "depth_law padded_keychain"
  unfolding depth_law_def
proof (intro conjI allI impI)
  fix k :: "string \<times> bool" and i k'
  assume a: "DeriveNonStandard padded_keychain k i = Inr k'"
  obtain s p where k: "k = (s, p)" by (cases k)
  from a k have lt: "trace_depth s < 255"
    by (auto simp: padded_keychain_def split: if_splits)
  from a k have "trace_depth (fst k') = Suc (trace_depth s)"
    by (auto simp: padded_keychain_def trace_depth_step split: if_splits)
  then show "unat (Depth padded_keychain k') = Suc (unat (Depth padded_keychain k))"
    using u8_Suc [OF lt] k by (cases k') (simp add: padded_keychain_def del: of_nat_Suc)
next
  fix k k' :: "string \<times> bool"
  assume "NewKeyFromString padded_keychain (String_of padded_keychain k) = Inr k'"
  then show "Depth padded_keychain k' = Depth padded_keychain k"
    by (cases k) (auto simp: padded_keychain_def)
qed

lemma string_form_law_padded: "string_form_law padded_keychain"
  by (auto simp: string_form_law_def padded_keychain_def)

theorem DeriveChildren_variant_bip32_witness:
  "depth_law padded_keychain \<and> Depth padded_keychain ('''', False) = 0
   \<and> DeriveChildren padded_keychain ('''', False) [5, 7]
       = variant_bip32 padded_keychain ('''', False) [5, 7]
   \<and> length [5 :: u32, 7] \<le> 2
   \<and> DeriveChildren padded_keychain ('''', False) [5, 7]
       = plain_bip32 padded_keychain ('''', False) [5, 7]
   \<and> string_form_law padded_keychain
   \<and> list_all (\<lambda>seg. seg < HardenedKeyStart) [7, 0, 5]
   \<and> same_result padded_keychain (DeriveChildren padded_keychain ('''', False) [7, 0, 5])
         (plain_bip32 padded_keychain ('''', False) [7, 0, 5])
   \<and> DeriveChildren padded_keychain ('''', False) [7, 0, 5] = Inr (''ddd'', True)
   \<and> plain_bip32 padded_keychain ('''', False) [7, 0, 5] = Inr (''ddd'', False)"
proof -
  have d: "Depth padded_keychain ('''', False) = 0"
    by (simp add: padded_keychain_def trace_depth_def)
  note short = DeriveChildren_variant_bip32 [OF depth_law_padded d, of "[5, 7]"]
  note long = DeriveChildren_variant_bip32 [OF depth_law_padded d, of "[7, 0, 5]"]
  have v: "DeriveChildren padded_keychain ('''', False) [5, 7]
       = variant_bip32 padded_keychain ('''', False) [5, 7]"
    by (rule short [THEN conjunct1])
  have l: "length [5 :: u32, 7] \<le> 2" by simp
  have p: "DeriveChildren padded_keychain ('''', False) [5, 7]
       = plain_bip32 padded_keychain ('''', False) [5, 7]"
    using l by (rule short [THEN conjunct2, THEN conjunct1, THEN mp])
  have h: "list_all (\<lambda>seg. seg < HardenedKeyStart) [7, 0, 5]"
    by (simp add: HardenedKeyStart_def)
  then have "string_form_law padded_keychain
      \<and> (\<forall>seg \<in> set [7, 0, 5]. seg < HardenedKeyStart)"
    using string_form_law_padded by (simp add: list_all_iff)
  then have r: "same_result padded_keychain
      (DeriveChildren padded_keychain ('''', False) [7, 0, 5])
      (plain_bip32 padded_keychain ('''', False) [7, 0, 5])"
    by (rule long [THEN conjunct2, THEN conjunct2, THEN mp])
  have e1: "DeriveChildren padded_keychain ('''', False) [7, 0, 5] = Inr (''ddd'', True)"
    by (simp add: DeriveChildren_def padded_keychain_def trace_depth_def HardenedKeyStart_def)
  have e2: "plain_bip32 padded_keychain ('''', False) [7, 0, 5] = Inr (''ddd'', False)"
    by (simp add: padded_keychain_def trace_depth_def HardenedKeyStart_def)
  show ?thesis
    using depth_law_padded d v l p string_form_law_padded h r e1 e2 by (intro conjI)
qed

lemma DeriveChildren_lnd_path_example:
  "DeriveChildren padded_keychain ('''', False)
     [HardenedKeyStart + 1017, HardenedKeyStart, HardenedKeyStart + 3, 0, 5]
     = Inr (''dqdqddd'', False)
   \<and> plain_bip32 padded_keychain ('''', False)
     [HardenedKeyStart + 1017, HardenedKeyStart, HardenedKeyStart + 3, 0, 5]
     = Inr (''dqdqdqdd'', False)"
  by (simp add: DeriveChildren_def padded_keychain_def trace_depth_def HardenedKeyStart_def)

section \<open>Properties of ParsePath\<close>

lemma Atoi_no_apostrophe: "Atoi s = Some v \<Longrightarrow> apostrophe \<notin> set s"
proof
  assume a: "Atoi s = Some v" and m: "apostrophe \<in> set s"
  have nd: "\<not> isDigit apostrophe" by (simp add: isDigit_def apostrophe_def)
  have ns: "\<not> isSign apostrophe" by (simp add: isSign_def apostrophe_def)
  show False
  proof (cases s)
    case Nil
    with m show False by simp
  next
    case (Cons c cs)
    show False
    proof (cases "isSign c")
      case True
      with a Cons have "list_all isDigit cs"
        by (auto simp: Atoi_def Let_def split: if_splits)
      moreover from True ns m Cons have "apostrophe \<in> set cs" by auto
      ultimately show False using nd by (auto simp: list_all_iff)
    next
      case False
      with a Cons have "list_all isDigit s"
        by (auto simp: Atoi_def Let_def split: if_splits)
      with m nd show False by (auto simp: list_all_iff)
    qed
  qed
qed

lemma TrimRight_append_marks:
  assumes "apostrophe \<notin> set b" and "list_all (\<lambda>c. c = apostrophe) m"
  shows "TrimRight (b @ m) apostrophe = b"
proof -
  have "dropWhile (\<lambda>d. d = apostrophe) (rev m @ rev b) = dropWhile (\<lambda>d. d = apostrophe) (rev b)"
    using assms(2) by (simp add: dropWhile_append list_all_iff)
  moreover have "dropWhile (\<lambda>d. d = apostrophe) (rev b) = rev b"
    using assms(1) by (cases "rev b") (auto simp: rev_swap[symmetric] intro: hd_in_set)
  ultimately show ?thesis by (simp add: TrimRight_def)
qed

lemma TrimRight_decomp:
  "\<exists>m. s = TrimRight s apostrophe @ m \<and> list_all (\<lambda>c. c = apostrophe) m"
proof -
  let ?P = "\<lambda>d. d = apostrophe"
  have "rev s = takeWhile ?P (rev s) @ dropWhile ?P (rev s)" by simp
  then have "s = rev (dropWhile ?P (rev s)) @ rev (takeWhile ?P (rev s))"
    by (metis rev_append rev_rev_ident)
  moreover have "list_all ?P (rev (takeWhile ?P (rev s)))"
    by (auto simp: list_all_iff dest: set_takeWhileD)
  ultimately show ?thesis unfolding TrimRight_def by blast
qed

lemma number_marks_append:
  assumes "apostrophe \<notin> set b" and "list_all (\<lambda>c. c = apostrophe) m"
  shows "segment_number (b @ m) = b" and "segment_marks (b @ m) = m"
proof -
  have b: "\<forall>c\<in>set b. c \<noteq> apostrophe" using assms(1) by auto
  have m: "takeWhile (\<lambda>c. c \<noteq> apostrophe) m = []" "dropWhile (\<lambda>c. c \<noteq> apostrophe) m = m"
    using assms(2) by (cases m; simp)+
  show "segment_number (b @ m) = b"
    using b m by (simp add: segment_number_def takeWhile_append2)
  show "segment_marks (b @ m) = m"
    using b m by (simp add: segment_marks_def dropWhile_append2)
qed

lemma part_accepted:
  "Atoi (if Contains p apostrophe then TrimRight p apostrophe else p) = Some v
     \<longleftrightarrow> Atoi (segment_number p) = Some v
           \<and> list_all (\<lambda>c. c = apostrophe) (segment_marks p)"
proof (cases "Contains p apostrophe")
  case False
  then have "segment_number p = p" "segment_marks p = []"
    by (auto simp: Contains_def segment_number_def segment_marks_def takeWhile_eq_all_conv)
  then show ?thesis using False by auto
next
  case True
  obtain m where m: "p = TrimRight p apostrophe @ m" "list_all (\<lambda>c. c = apostrophe) m"
    using TrimRight_decomp by blast
  show ?thesis
  proof
    assume a: "Atoi (if Contains p apostrophe then TrimRight p apostrophe else p) = Some v"
    then have t: "Atoi (TrimRight p apostrophe) = Some v" using True by simp
    then have "apostrophe \<notin> set (TrimRight p apostrophe)" by (rule Atoi_no_apostrophe)
    then have "segment_number p = TrimRight p apostrophe" "segment_marks p = m"
      using number_marks_append [of "TrimRight p apostrophe" m] m by simp_all
    then show "Atoi (segment_number p) = Some v
        \<and> list_all (\<lambda>c. c = apostrophe) (segment_marks p)"
      using t m(2) by simp
  next
    assume a: "Atoi (segment_number p) = Some v
        \<and> list_all (\<lambda>c. c = apostrophe) (segment_marks p)"
    have "p = segment_number p @ segment_marks p"
      by (simp add: segment_number_def segment_marks_def)
    moreover have "apostrophe \<notin> set (segment_number p)"
      by (auto simp: segment_number_def dest: set_takeWhileD)
    ultimately have "TrimRight p apostrophe = segment_number p"
      using TrimRight_append_marks a by metis
    then show "Atoi (if Contains p apostrophe then TrimRight p apostrophe else p) = Some v"
      using a True by simp
  qed
qed

lemma index_value:
  "(if Contains p apostrophe then 0 + HardenedKeyStart else 0)
     = (if segment_marks p = [] then 0 else HardenedKeyStart)"
  by (auto simp: Contains_def segment_marks_def dropWhile_eq_Nil_conv)

lemma parseParts_accepts:
  "(parseParts ps :: 'x error + u32 list) = Inr indices
     \<longleftrightarrow> list_all accepted_segment ps \<and> indices = map segment_value ps"
proof (induction ps arbitrary: indices)
  case Nil
  then show ?case by auto
next
  case (Cons p ps)
  let ?part = "if Contains p apostrophe then TrimRight p apostrophe else p"
  show ?case
  proof (cases "Atoi ?part")
    case None
    then have "\<not> accepted_segment p"
      using part_accepted [of p] by (auto simp: accepted_segment_def)
    then show ?thesis using None by (simp add: Let_def)
  next
    case (Some v)
    then have n: "Atoi (segment_number p) = Some v"
      and m: "list_all (\<lambda>c. c = apostrophe) (segment_marks p)"
      using part_accepted [of p v] by auto
    have acc: "accepted_segment p"
      using n m by (simp add: accepted_segment_def)
    have val: "(if Contains p apostrophe then 0 + HardenedKeyStart else 0) + word_of_int v
        = segment_value p"
      unfolding index_value segment_value_def n by simp
    show ?thesis
    proof (cases "parseParts ps :: 'x error + u32 list")
      case (Inl e)
      then have "\<not> list_all accepted_segment ps" using Cons.IH by auto
      then show ?thesis using Some Inl by (simp add: Let_def)
    next
      case (Inr r)
      then have "list_all accepted_segment ps" "r = map segment_value ps"
        using Cons.IH by auto
      then show ?thesis using Some Inr acc val by (auto simp: Let_def)
    qed
  qed
qed

lemma Atoi_grammar:
  "Atoi s = Some v \<longleftrightarrow>
     (\<exists>sg ds. s = sg @ ds \<and> (sg = [] \<or> sg = ''+'' \<or> sg = ''-'') \<and> ds \<noteq> [] \<and> list_all isDigit ds
        \<and> v = (if sg = ''-'' then - decimal ds else decimal ds) \<and> - (2 ^ 63) \<le> v \<and> v < 2 ^ 63)"
  (is "?l \<longleftrightarrow> ?r")
proof
  assume l: ?l
  show ?r
  proof (cases "s \<noteq> [] \<and> isSign (hd s)")
    case True
    then obtain c cs where s: "s = c # cs" and c: "c = CHR ''+'' \<or> c = CHR ''-''"
      by (cases s) (auto simp: isSign_def)
    from l s c have "cs \<noteq> [] \<and> list_all isDigit cs
        \<and> v = (if c = CHR ''-'' then - decimal cs else decimal cs) \<and> - (2 ^ 63) \<le> v \<and> v < 2 ^ 63"
      by (auto simp: Atoi_def Let_def isSign_def split: if_splits)
    with s c show ?thesis
      by (intro exI [of _ "[c]"] exI [of _ cs]) auto
  next
    case False
    with l have "s \<noteq> [] \<and> list_all isDigit s \<and> hd s \<noteq> CHR ''-''
        \<and> v = decimal s \<and> - (2 ^ 63) \<le> v \<and> v < 2 ^ 63"
      by (auto simp: Atoi_def Let_def isSign_def split: if_splits)
    then show ?thesis
      by (intro exI [of _ "[]"] exI [of _ s]) auto
  qed
next
  assume ?r
  then obtain sg ds where r: "s = sg @ ds" "sg = [] \<or> sg = ''+'' \<or> sg = ''-''" "ds \<noteq> []"
      "list_all isDigit ds" "v = (if sg = ''-'' then - decimal ds else decimal ds)"
      "- (2 ^ 63) \<le> v" "v < 2 ^ 63"
    by blast
  have nd: "\<not> isSign (hd ds)"
    using r(3,4) by (cases ds) (auto simp: isSign_def isDigit_def)
  from r(2) show ?l
  proof (elim disjE)
    assume "sg = []"
    with r nd show ?l by (auto simp: Atoi_def Let_def isSign_def)
  next
    assume "sg = ''+''"
    with r show ?l by (auto simp: Atoi_def Let_def isSign_def)
  next
    assume "sg = ''-''"
    with r show ?l by (auto simp: Atoi_def Let_def isSign_def)
  qed
qed

lemmas ParsePath_eval =
  ParsePath_def TrimSpace_def asciiSpace_def unicodeSpaces_def HasPrefix_def Contains_def
  TrimRight_def Atoi_def isSign_def isDigit_def decimal_def digitVal_def apostrophe_def
  HardenedKeyStart_def

text \<open>
  C7, as the claim states it, fails: a negative segment and a segment beyond
  32 bits are both parsed, the number being cut to its low 32 bits.
\<close>

theorem ParsePath_negative_and_wide_segments:
  "(ParsePath ''m/-1'' :: unit error + u32 list) = Inr [0xFFFFFFFF]
   \<and> (ParsePath ''m/4294967296'' :: unit error + u32 list) = Inr [0]"
  by (simp add: ParsePath_eval)

text \<open>
  C7, amended.  \<^verbatim>\<open>ParsePath\<close> returns a parsed path exactly when the text,
  with surrounding white space removed, is not empty, starts with \<open>m/\<close>, and
  every segment after the \<open>m\<close> is an optionally signed decimal number within
  the 64-bit signed range followed by nothing but apostrophes; the parsed index
  is then the number cut to 32 bits, plus the hardened offset if an apostrophe
  follows.  On every other text it returns an error.
\<close>

theorem ParsePath_accepts:
  "(ParsePath path :: 'x error + u32 list) = Inr indices \<longleftrightarrow>
     TrimSpace path \<noteq> [] \<and> HasPrefix (TrimSpace path) ''m/''
     \<and> list_all accepted_segment (tl (Split (TrimSpace path) (CHR ''/'')))
     \<and> indices = map segment_value (tl (Split (TrimSpace path) (CHR ''/'')))"
  by (simp add: ParsePath_def Let_def parseParts_accepts)

theorem ParsePath_accepts_witness:
  "(ParsePath '' m/84'/0'' :: unit error + u32 list) = Inr [HardenedKeyStart + 84, 0]
   \<and> list_all accepted_segment (tl (Split (TrimSpace '' m/84'/0'') (CHR ''/'')))
   \<and> (\<exists>e. (ParsePath ''m/8x'' :: unit error + u32 list) = Inl e)"
proof -
  have e: "(ParsePath '' m/84'/0'' :: unit error + u32 list) = Inr [HardenedKeyStart + 84, 0]"
    by (simp add: ParsePath_eval)
  have "\<not> accepted_segment ''8x''"
    by (simp add: accepted_segment_def segment_number_def segment_marks_def Atoi_def
        isSign_def isDigit_def apostrophe_def)
  then have "\<not> list_all accepted_segment (tl (Split (TrimSpace ''m/8x'') (CHR ''/'')))"
    by (simp add: TrimSpace_def asciiSpace_def unicodeSpaces_def HasPrefix_def)
  then have "\<And>r. (ParsePath ''m/8x'' :: unit error + u32 list) \<noteq> Inr r"
    using ParsePath_accepts [of "''m/8x''"] by blast
  then have "\<exists>e. (ParsePath ''m/8x'' :: unit error + u32 list) = Inl e"
    by (cases "ParsePath ''m/8x'' :: unit error + u32 list") auto
  then show ?thesis
    using e ParsePath_accepts [THEN iffD1, OF e] by blast
qed

section \<open>Properties of FundingKey\<close>

lemma little_endian64_unfold:
  "little_endian64 n = [ucast n, ucast (drop_bit 8 n), ucast (drop_bit 16 n), ucast (drop_bit 24 n),
                  ucast (drop_bit 32 n), ucast (drop_bit 40 n), ucast (drop_bit 48 n),
                  ucast (drop_bit 56 n)]"
  by (simp add: little_endian64_def upt_rec)

lemma base256_digits:
  "(\<Sum>i<k. ((x div 256 ^ i) mod 256) * 256 ^ i) = x mod 256 ^ k" for x :: nat
proof (induction k)
  case 0
  then show ?case by simp
next
  case (Suc k)
  have "x mod (256 ^ k * 256) = 256 ^ k * (x div 256 ^ k mod 256) + x mod 256 ^ k"
    by (rule mod_mult2_eq)
  moreover have "(256 :: nat) ^ Suc k = 256 ^ k * 256" by simp
  ultimately have "x mod 256 ^ Suc k = x mod 256 ^ k + ((x div 256 ^ k) mod 256) * 256 ^ k"
    by (simp only: mult.commute add.commute)
  with Suc show ?case by simp
qed

lemma little_endian64_nth:
  assumes "i < 8"
  shows "unat (little_endian64 n ! i) = (unat n div 256 ^ i) mod 256"
proof -
  have "little_endian64 n ! i = ucast (drop_bit (8 * i) n)"
    using assms by (simp add: little_endian64_def)
  moreover have "unat (ucast (drop_bit (8 * i) n) :: u8) = (unat n div 2 ^ (8 * i)) mod 256"
    unfolding unsigned_ucast_eq unat_drop_bit_eq
    by (simp add: take_bit_eq_mod drop_bit_eq_div)
  moreover have "(2 :: nat) ^ (8 * i) = 256 ^ i"
    by (simp add: power_mult)
  ultimately show ?thesis by simp
qed

lemma little_endian64_value:
  "(\<Sum>i<8. unat (little_endian64 n ! i) * 256 ^ i) = unat n"
proof -
  have "(\<Sum>i<8. unat (little_endian64 n ! i) * 256 ^ i)
          = (\<Sum>i<8. ((unat n div 256 ^ i) mod 256) * 256 ^ i)"
    by (rule sum.cong) (simp_all add: little_endian64_nth)
  also have "\<dots> = unat n mod 256 ^ 8"
    by (rule base256_digits)
  also have "\<dots> = unat n"
    using unsigned_less [of n, where 'a = nat] by simp
  finally show ?thesis .
qed

text \<open>
  C3.  For a counterparty key whose compressed serialization has 33 bytes,
  \<^verbatim>\<open>FundingKey\<close> is the public key of the private key made by the chain of
  three HKDF-SHA256 expansions: the first keyed by the secret, unsalted, info
  \<open>peer seed\<close>; the second keyed by the first's output and salted with the 33
  bytes of the key followed by the channel number as 8 little-endian bytes,
  info \<open>per-peer seed\<close>; the third keyed by the second's output, unsalted,
  info \<open>c-lightning\<close>.  An error of any expansion is returned as it is.
\<close>

theorem FundingKey_hkdf_chain:
  assumes "length (SerializeCompressed C P) = 33"
  shows "FundingKey C secret P n = hkdf_chain C secret P n"
proof -
  let ?ser = "SerializeCompressed C P"
  have b1: "copy_bytes (take 33 (replicate (33 + 8) 0)) ?ser @ drop 33 (replicate (33 + 8) 0)
              = ?ser @ replicate 8 0"
    using assms by (simp add: copy_bytes_def)
  have b2: "PutUint64 (drop 33 (?ser @ replicate 8 0)) n = Some (little_endian64 n)"
    using assms by (simp add: PutUint64_def little_endian64_unfold)
  have b3: "take 33 (?ser @ replicate 8 0) @ little_endian64 n = ?ser @ little_endian64 n"
    using assms by simp
  show ?thesis
    unfolding FundingKey_def hkdf_chain_def HkdfSha256_def Let_def b1 b2 option.case b3
      InfoPeerSeed_def InfoPerPeer_def InfoCLightning_def
    by (simp split: sum.splits)
qed

theorem FundingKey_hkdf_chain_witness:
  "length (SerializeCompressed concat_lib (replicate 33 3)) = 33
   \<and> FundingKey concat_lib (replicate 32 7) (replicate 33 3) 1
       = hkdf_chain concat_lib (replicate 32 7) (replicate 33 3) 1"
proof -
  have l: "length (SerializeCompressed concat_lib (replicate 33 3)) = 33"
    by (simp add: concat_lib_def)
  show ?thesis
    using l FundingKey_hkdf_chain [OF l, of "replicate 32 7" 1] by (intro conjI)
qed

lemma little_endian64_example: "little_endian64 258 = [2, 1, 0, 0, 0, 0, 0, 0]"
  by (simp add: little_endian64_unfold drop_bit_eq_div)

section \<open>Properties of the sweep builder\<close>

lemma addUtxo_Inr:
  assumes "addUtxo E t st u = Inr st'"
  shows "totalOutputValue st' = totalOutputValue st + TxOut_Value (TxOut u)"
    and "prevOutFetcher st' = prevOutFetcher st @ [(OutPoint u, TxOut u)]"
    and "map Sequence (sweepTxIn st') = map Sequence (sweepTxIn st) @ [seqOf (addr t)]"
    and "map PreviousOutPoint (sweepTxIn st') = map PreviousOutPoint (sweepTxIn st) @ [OutPoint u]"
    and "estimator st' = estimator st @ weightCalls E (addr t)"
    and "map (\<lambda>d. d \<noteq> None) (signDescs st') = map (\<lambda>d. d \<noteq> None) (signDescs st) @ [swept (addr t)]"
  using assms
  by (cases "addr t"; auto simp: addUtxo_def Let_def split: option.splits sum.splits)+

lemma addUtxo_not_dust: "addUtxo E t st u \<noteq> Inl (ErrDustLimit n v)"
  by (cases "addr t"; auto simp: addUtxo_def Let_def split: option.splits sum.splits)

lemma addUtxos_Inr:
  assumes "addUtxos E t st us = Inr st'"
  shows "totalOutputValue st' = totalOutputValue st + sum_list (map (\<lambda>u. TxOut_Value (TxOut u)) us)"
    and "prevOutFetcher st' = prevOutFetcher st @ map (\<lambda>u. (OutPoint u, TxOut u)) us"
    and "map Sequence (sweepTxIn st') = map Sequence (sweepTxIn st) @ map (\<lambda>u. seqOf (addr t)) us"
    and "map PreviousOutPoint (sweepTxIn st') = map PreviousOutPoint (sweepTxIn st) @ map OutPoint us"
    and "estimator st' = estimator st @ concat (map (\<lambda>u. weightCalls E (addr t)) us)"
    and "map (\<lambda>d. d \<noteq> None) (signDescs st')
           = map (\<lambda>d. d \<noteq> None) (signDescs st) @ map (\<lambda>u. swept (addr t)) us"
  using assms
proof (induction us arbitrary: st)
  case Nil
  { case 1 then show ?case by simp }
  { case 2 then show ?case by simp }
  { case 3 then show ?case by simp }
  { case 4 then show ?case by simp }
  { case 5 then show ?case by simp }
  { case 6 then show ?case by simp }
next
  case (Cons u us)
  { case 1 then show ?case using Cons.IH(1) addUtxo_Inr(1)
      by (fastforce split: sum.splits simp: add.assoc) }
  { case 2 then show ?case using Cons.IH(2) addUtxo_Inr(2)
      by (fastforce split: sum.splits) }
  { case 3 then show ?case using Cons.IH(3) addUtxo_Inr(3)
      by (fastforce split: sum.splits) }
  { case 4 then show ?case using Cons.IH(4) addUtxo_Inr(4)
      by (fastforce split: sum.splits) }
  { case 5 then show ?case using Cons.IH(5) addUtxo_Inr(5)
      by (fastforce split: sum.splits) }
  { case 6 then show ?case using Cons.IH(6) addUtxo_Inr(6)
      by (fastforce split: sum.splits) }
qed

lemma addUtxos_not_dust: "addUtxos E t st us \<noteq> Inl (ErrDustLimit n v)"
  by (induction us arbitrary: st) (auto split: sum.splits simp: addUtxo_not_dust)

lemma addTargets_not_dust: "addTargets E st ts \<noteq> Inl (ErrDustLimit n v)"
  by (induction ts arbitrary: st) (auto split: sum.splits simp: addUtxos_not_dust)

lemma sweepInputs_Cons:
  "sweepInputs (t # ts) = map (\<lambda>u. (addr t, u)) (utxos t) @ sweepInputs ts"
  by (simp add: sweepInputs_def)

lemma addTargets_Inr:
  assumes "addTargets E st ts = Inr st'"
  shows "totalOutputValue st'
           = totalOutputValue st + sum_list (map (\<lambda>(a, u). TxOut_Value (TxOut u)) (sweepInputs ts))"
    and "prevOutFetcher st'
           = prevOutFetcher st @ map (\<lambda>(a, u). (OutPoint u, TxOut u)) (sweepInputs ts)"
    and "map Sequence (sweepTxIn st')
           = map Sequence (sweepTxIn st) @ map (\<lambda>(a, u). seqOf a) (sweepInputs ts)"
    and "map PreviousOutPoint (sweepTxIn st')
           = map PreviousOutPoint (sweepTxIn st) @ map (\<lambda>(a, u). OutPoint u) (sweepInputs ts)"
    and "estimator st' = estimator st @ concat (map (\<lambda>(a, u). weightCalls E a) (sweepInputs ts))"
    and "map (\<lambda>d. d \<noteq> None) (signDescs st')
           = map (\<lambda>d. d \<noteq> None) (signDescs st) @ map (\<lambda>(a, u). swept a) (sweepInputs ts)"
  using assms
proof (induction ts arbitrary: st)
  case Nil
  { case 1 then show ?case by (simp add: sweepInputs_def) }
  { case 2 then show ?case by (simp add: sweepInputs_def) }
  { case 3 then show ?case by (simp add: sweepInputs_def) }
  { case 4 then show ?case by (simp add: sweepInputs_def) }
  { case 5 then show ?case by (simp add: sweepInputs_def) }
  { case 6 then show ?case by (simp add: sweepInputs_def) }
next
  case (Cons t ts)
  { case 1
    then obtain m where m: "addUtxos E t st (utxos t) = Inr m" "addTargets E m ts = Inr st'"
      by (auto split: sum.splits)
    show ?case
      using Cons.IH(1) [OF m(2)] addUtxos_Inr(1) [OF m(1)]
      by (simp add: sweepInputs_Cons comp_def add.assoc) }
  { case 2
    then obtain m where m: "addUtxos E t st (utxos t) = Inr m" "addTargets E m ts = Inr st'"
      by (auto split: sum.splits)
    show ?case
      using Cons.IH(2) [OF m(2)] addUtxos_Inr(2) [OF m(1)]
      by (simp add: sweepInputs_Cons comp_def) }
  { case 3
    then obtain m where m: "addUtxos E t st (utxos t) = Inr m" "addTargets E m ts = Inr st'"
      by (auto split: sum.splits)
    show ?case
      using Cons.IH(3) [OF m(2)] addUtxos_Inr(3) [OF m(1)]
      by (simp add: sweepInputs_Cons comp_def) }
  { case 4
    then obtain m where m: "addUtxos E t st (utxos t) = Inr m" "addTargets E m ts = Inr st'"
      by (auto split: sum.splits)
    show ?case
      using Cons.IH(4) [OF m(2)] addUtxos_Inr(4) [OF m(1)]
      by (simp add: sweepInputs_Cons comp_def) }
  { case 5
    then obtain m where m: "addUtxos E t st (utxos t) = Inr m" "addTargets E m ts = Inr st'"
      by (auto split: sum.splits)
    show ?case
      using Cons.IH(5) [OF m(2)] addUtxos_Inr(5) [OF m(1)]
      by (simp add: sweepInputs_Cons comp_def) }
  { case 6
    then obtain m where m: "addUtxos E t st (utxos t) = Inr m" "addTargets E m ts = Inr st'"
      by (auto split: sum.splits)
    show ?case
      using Cons.IH(6) [OF m(2)] addUtxos_Inr(6) [OF m(1)]
      by (simp add: sweepInputs_Cons comp_def) }
qed

lemma map_update_same: "(map f xs) [i := f (xs ! i)] = map f xs"
  by (metis list_update_id map_update)

lemma setWitness_fields:
  "TxOuts (setWitness tx i w) = TxOuts tx"
  "map Sequence (TxIn (setWitness tx i w)) = map Sequence (TxIn tx)"
  "map PreviousOutPoint (TxIn (setWitness tx i w)) = map PreviousOutPoint (TxIn tx)"
  "length (TxIn (setWitness tx i w)) = length (TxIn tx)"
  by (simp_all add: setWitness_def map_update map_update_same)

lemma signInput_None: "signInput E sh idx tx None = Inl (Panic ''nil pointer dereference'')"
  by (simp add: signInput_def)

lemma signInput_not_dust: "signInput E sh idx tx d \<noteq> Inl (ErrDustLimit n v)"
  by (auto simp: signInput_def Let_def split: option.splits sum.splits)

lemma signInputs_Inr:
  assumes "signInputs E sh idx tx ds = Inr tx'"
  shows "TxOuts tx' = TxOuts tx"
    and "map Sequence (TxIn tx') = map Sequence (TxIn tx)"
    and "map PreviousOutPoint (TxIn tx') = map PreviousOutPoint (TxIn tx)"
    and "list_all (\<lambda>d. d \<noteq> None) ds"
  using assms
proof (induction ds arbitrary: idx tx)
  case Nil
  { case 1 then show ?case by simp }
  { case 2 then show ?case by simp }
  { case 3 then show ?case by simp }
  { case 4 then show ?case by simp }
next
  case (Cons d ds)
  { case 1 then show ?case using Cons.IH(1)
      by (auto simp: setWitness_fields split: if_splits sum.splits) }
  { case 2 then show ?case using Cons.IH(2)
      by (auto simp: setWitness_fields split: if_splits sum.splits) }
  { case 3 then show ?case using Cons.IH(3)
      by (auto simp: setWitness_fields split: if_splits sum.splits) }
  { case 4
    then have "d \<noteq> None"
      by (cases d) (auto simp: signInput_None)
    moreover have "list_all (\<lambda>d. d \<noteq> None) ds"
      using 4 Cons.IH(4) by (auto split: if_splits sum.splits)
    ultimately show ?case by simp }
qed

lemma signInputs_not_dust: "signInputs E sh idx tx ds \<noteq> Inl (ErrDustLimit n v)"
  by (induction ds arbitrary: idx tx)
     (auto simp: signInput_not_dust split: if_splits sum.splits)

lemma failsInsufficientFunds_iff:
  "failsInsufficientFunds r \<longleftrightarrow> (\<exists>n v. r = Inl (ErrDustLimit n v))"
  by (cases r rule: failsInsufficientFunds.cases) auto

lemma buildAndSign_not_built:
  assumes "\<not> inputsBuilt E est0 targets"
  shows "\<not> failsInsufficientFunds (buildAndSign E targets sweepScript est0 feeRate)"
    and "\<exists>err. buildAndSign E targets sweepScript est0 feeRate = Inl err"
  using assms
  by (auto simp: inputsBuilt_def buildAndSign_def failsInsufficientFunds_iff addTargets_not_dust
           split: sum.splits)

lemma buildAndSign_built:
  assumes "inputsBuilt E est0 targets"
  obtains ins fetcher descs where
    "map Sequence ins = map (\<lambda>(a, u). seqOf a) (sweepInputs targets)"
    "map PreviousOutPoint ins = map (\<lambda>(a, u). OutPoint u) (sweepInputs targets)"
    "map (\<lambda>d. d \<noteq> None) descs = map (\<lambda>(a, u). swept a) (sweepInputs targets)"
    "buildAndSign E targets sweepScript est0 feeRate =
       (if targets = [] \<or> totalInputValue targets < sweepDustLimit
        then Inl (ErrDustLimit (length targets) (totalInputValue targets))
        else signInputs E (unsignedSweepTx E targets sweepScript est0 feeRate ins, fetcher)
               0 (unsignedSweepTx E targets sweepScript est0 feeRate ins) descs)"
proof -
  from assms obtain st where st:
    "addTargets E \<lparr> totalOutputValue = 0, prevOutFetcher = [], sweepTxIn = [],
                    estimator = est0, signDescs = [] \<rparr> targets = Inr st"
    by (auto simp: inputsBuilt_def split: sum.splits)
  have t: "totalOutputValue st = totalInputValue targets"
    using addTargets_Inr(1) [OF st] by (simp add: totalInputValue_def)
  have e: "estimator st = estimatedCalls E est0 targets"
    using addTargets_Inr(5) [OF st] by (simp add: estimatedCalls_def)
  have 1: "map Sequence (sweepTxIn st) = map (\<lambda>(a, u). seqOf a) (sweepInputs targets)"
    using addTargets_Inr(3) [OF st] by simp
  have 2: "map PreviousOutPoint (sweepTxIn st) = map (\<lambda>(a, u). OutPoint u) (sweepInputs targets)"
    using addTargets_Inr(4) [OF st] by simp
  have 3: "map (\<lambda>d. d \<noteq> None) (signDescs st) = map (\<lambda>(a, u). swept a) (sweepInputs targets)"
    using addTargets_Inr(6) [OF st] by simp
  have 4: "buildAndSign E targets sweepScript est0 feeRate =
       (if targets = [] \<or> totalInputValue targets < sweepDustLimit
        then Inl (ErrDustLimit (length targets) (totalInputValue targets))
        else signInputs E (unsignedSweepTx E targets sweepScript est0 feeRate (sweepTxIn st),
                           prevOutFetcher st)
               0 (unsignedSweepTx E targets sweepScript est0 feeRate (sweepTxIn st))
               (signDescs st))"
    using st t e by (simp add: buildAndSign_def Let_def unsignedSweepTx_def)
  from 1 2 3 4 show thesis by (rule that)
qed

lemma inputsBuilt_single_P2WKH:
  assumes "addr t = AddressWitnessPubKeyHash a"
  shows "inputsBuilt E est0 [t]"
proof -
  have "\<exists>st'. addUtxos E t st us = Inr st'" for st us
    by (induction us arbitrary: st) (auto simp: addUtxo_def Let_def assms)
  then obtain st' where "addUtxos E t \<lparr> totalOutputValue = 0, prevOutFetcher = [],
      sweepTxIn = [], estimator = est0, signDescs = [] \<rparr> (utxos t) = Inr st'"
    by blast
  then show ?thesis
    by (simp add: inputsBuilt_def)
qed

lemma buildAndSign_fails_iff:
  "failsInsufficientFunds (buildAndSign E targets sweepScript est0 feeRate)
      \<longleftrightarrow> inputsBuilt E est0 targets
            \<and> (targets = [] \<or> totalInputValue targets < sweepDustLimit)"
proof (cases "inputsBuilt E est0 targets")
  case False
  then show ?thesis using buildAndSign_not_built(1) by blast
next
  case True
  then obtain ins fetcher descs where
    "buildAndSign E targets sweepScript est0 feeRate =
       (if targets = [] \<or> totalInputValue targets < sweepDustLimit
        then Inl (ErrDustLimit (length targets) (totalInputValue targets))
        else signInputs E (unsignedSweepTx E targets sweepScript est0 feeRate ins, fetcher)
               0 (unsignedSweepTx E targets sweepScript est0 feeRate ins) descs)"
    by (rule buildAndSign_built)
  then show ?thesis
    using True by (auto simp: failsInsufficientFunds_iff signInputs_not_dust)
qed

text \<open>
  C2, amended.  The sweep builder fails with \<open>InsufficientFunds\<close>, before
  any signing, exactly when the inputs were assembled and either there is no
  target or the aggregate input value itself, before any fee is subtracted, is
  below the dust floor of 600; the fee plays no part.  When the inputs were
  assembled, there is a target and the aggregate value is at least 600, the
  builder goes on to sign the transaction whose single output is the aggregate
  value less the fee.  In particular, for a single plain-key-hash output of
  value \<open>V\<close> it fails with \<open>InsufficientFunds\<close> exactly when \<open>V < 600\<close>.
\<close>

theorem buildAndSign_dust_check:
  "(failsInsufficientFunds (buildAndSign E targets sweepScript est0 feeRate)
      \<longleftrightarrow> inputsBuilt E est0 targets
            \<and> (targets = [] \<or> totalInputValue targets < sweepDustLimit))
   \<and> (inputsBuilt E est0 targets \<and> targets \<noteq> [] \<and> sweepDustLimit \<le> totalInputValue targets
        \<longrightarrow> (\<exists>ins fetcher descs.
               buildAndSign E targets sweepScript est0 feeRate =
                 signInputs E (unsignedSweepTx E targets sweepScript est0 feeRate ins, fetcher)
                   0 (unsignedSweepTx E targets sweepScript est0 feeRate ins) descs))
   \<and> (addr t = AddressWitnessPubKeyHash a \<and> utxos t = [u]
        \<longrightarrow> (failsInsufficientFunds (buildAndSign E [t] sweepScript est0 feeRate)
               \<longleftrightarrow> TxOut_Value (TxOut u) < 600))"
proof (intro conjI impI)
  show "failsInsufficientFunds (buildAndSign E targets sweepScript est0 feeRate)
      \<longleftrightarrow> inputsBuilt E est0 targets
            \<and> (targets = [] \<or> totalInputValue targets < sweepDustLimit)"
    by (rule buildAndSign_fails_iff)
next
  assume a: "inputsBuilt E est0 targets \<and> targets \<noteq> [] \<and> sweepDustLimit \<le> totalInputValue targets"
  then obtain ins fetcher descs where
    "buildAndSign E targets sweepScript est0 feeRate =
       (if targets = [] \<or> totalInputValue targets < sweepDustLimit
        then Inl (ErrDustLimit (length targets) (totalInputValue targets))
        else signInputs E (unsignedSweepTx E targets sweepScript est0 feeRate ins, fetcher)
               0 (unsignedSweepTx E targets sweepScript est0 feeRate ins) descs)"
    using buildAndSign_built by blast
  moreover have "\<not> (targets = [] \<or> totalInputValue targets < sweepDustLimit)"
    using a by (simp add: not_less)
  ultimately show "\<exists>ins fetcher descs.
       buildAndSign E targets sweepScript est0 feeRate =
         signInputs E (unsignedSweepTx E targets sweepScript est0 feeRate ins, fetcher)
           0 (unsignedSweepTx E targets sweepScript est0 feeRate ins) descs"
    by (simp only: if_False) blast
next
  assume a: "addr t = AddressWitnessPubKeyHash a \<and> utxos t = [u]"
  then have "inputsBuilt E est0 [t]" by (simp add: inputsBuilt_single_P2WKH)
  moreover have "totalInputValue [t] = TxOut_Value (TxOut u)"
    using a by (simp add: totalInputValue_def sweepInputs_def)
  ultimately show "failsInsufficientFunds (buildAndSign E [t] sweepScript est0 feeRate)
               \<longleftrightarrow> TxOut_Value (TxOut u) < 600"
    by (simp add: buildAndSign_fails_iff sweepDustLimit_def)
qed

lemma buildAndSign_Inr:
  assumes "buildAndSign E targets sweepScript est0 feeRate = Inr tx"
  obtains ins fetcher descs where
    "map Sequence ins = map (\<lambda>(a, u). seqOf a) (sweepInputs targets)"
    "map PreviousOutPoint ins = map (\<lambda>(a, u). OutPoint u) (sweepInputs targets)"
    "map (\<lambda>d. d \<noteq> None) descs = map (\<lambda>(a, u). swept a) (sweepInputs targets)"
    "signInputs E (unsignedSweepTx E targets sweepScript est0 feeRate ins, fetcher)
               0 (unsignedSweepTx E targets sweepScript est0 feeRate ins) descs = Inr tx"
proof -
  have "inputsBuilt E est0 targets"
    using assms buildAndSign_not_built(2) [of E est0 targets sweepScript feeRate] by auto
  then obtain ins fetcher descs where f:
    "map Sequence ins = map (\<lambda>(a, u). seqOf a) (sweepInputs targets)"
    "map PreviousOutPoint ins = map (\<lambda>(a, u). OutPoint u) (sweepInputs targets)"
    "map (\<lambda>d. d \<noteq> None) descs = map (\<lambda>(a, u). swept a) (sweepInputs targets)"
    "buildAndSign E targets sweepScript est0 feeRate =
       (if targets = [] \<or> totalInputValue targets < sweepDustLimit
        then Inl (ErrDustLimit (length targets) (totalInputValue targets))
        else signInputs E (unsignedSweepTx E targets sweepScript est0 feeRate ins, fetcher)
               0 (unsignedSweepTx E targets sweepScript est0 feeRate ins) descs)"
    by (rule buildAndSign_built)
  from f(4) assms have
    "signInputs E (unsignedSweepTx E targets sweepScript est0 feeRate ins, fetcher)
               0 (unsignedSweepTx E targets sweepScript est0 feeRate ins) descs = Inr tx"
    by (simp split: if_splits)
  with f(1-3) show thesis by (rule that)
qed

lemma buildAndSign_output:
  assumes "buildAndSign E targets sweepScript est0 feeRate = Inr tx"
  shows "TxOuts tx =
           [\<lparr> TxOut_Value = totalInputValue targets
                 - totalFee E feeRate (estimatedCalls E est0 targets),
              PkScript = sweepScript \<rparr>]"
proof -
  from assms obtain ins fetcher descs where
    "signInputs E (unsignedSweepTx E targets sweepScript est0 feeRate ins, fetcher)
               0 (unsignedSweepTx E targets sweepScript est0 feeRate ins) descs = Inr tx"
    by (rule buildAndSign_Inr)
  from signInputs_Inr(1) [OF this] show ?thesis
    by (simp add: unsignedSweepTx_def)
qed

text \<open>
  C4.  A sweep transaction that was built and signed has exactly one output:
  it pays the recovery script the total input value less the fee, in 64-bit
  arithmetic, where the fee is \<^verbatim>\<open>FeeForWeight\<close> of the rate per kilo-weight
  (\<^verbatim>\<open>FeePerKWeight\<close> of 1000 times the rate per vbyte) at the weight of the
  estimator after the output and every input were added to it.
\<close>

theorem buildAndSign_single_output:
  assumes "buildAndSign E targets sweepScript est0 feeRate = Inr tx"
  shows "TxOuts tx =
           [\<lparr> TxOut_Value = totalInputValue targets
                 - FeeForWeight E (FeePerKWeight E (ucast (1000 * feeRate)))
                     (Weight E (estimatedCalls E est0 targets)),
              PkScript = sweepScript \<rparr>]"
  using buildAndSign_output [OF assms] by (simp add: totalFee_def)

text \<open>
  C9.  In a sweep transaction that was built and signed, the inputs are the
  outputs of the targets, in order, and each input that spends a
  witness-script-hash (anchor) or taproot output has sequence number 1, while
  each input that spends a witness-key-hash output has the maximal sequence
  number \<open>0xffffffff\<close>; no output of another kind is spent.
\<close>

theorem buildAndSign_sequences:
  assumes "buildAndSign E targets sweepScript est0 feeRate = Inr tx"
  shows "list_all2 (\<lambda>txin (a, u). PreviousOutPoint txin = OutPoint u
                                   \<and> inputSequenceOk a (Sequence txin))
           (TxIn tx) (sweepInputs targets)"
proof -
  from assms obtain ins fetcher descs where
    i: "map Sequence ins = map (\<lambda>(a, u). seqOf a) (sweepInputs targets)"
    and p: "map PreviousOutPoint ins = map (\<lambda>(a, u). OutPoint u) (sweepInputs targets)"
    and d: "map (\<lambda>d. d \<noteq> None) descs = map (\<lambda>(a, u). swept a) (sweepInputs targets)"
    and sg: "signInputs E (unsignedSweepTx E targets sweepScript est0 feeRate ins, fetcher)
               0 (unsignedSweepTx E targets sweepScript est0 feeRate ins) descs = Inr tx"
    by (rule buildAndSign_Inr)
  have seq: "map Sequence (TxIn tx) = map (\<lambda>(a, u). seqOf a) (sweepInputs targets)"
    using signInputs_Inr(2) [OF sg] i by (simp add: unsignedSweepTx_def)
  have prev: "map PreviousOutPoint (TxIn tx) = map (\<lambda>(a, u). OutPoint u) (sweepInputs targets)"
    using signInputs_Inr(3) [OF sg] p by (simp add: unsignedSweepTx_def)
  have "list_all (\<lambda>b. b) (map (\<lambda>d. d \<noteq> None) descs)"
    using signInputs_Inr(4) [OF sg] by (simp add: list_all_iff)
  then have sw: "\<forall>(a, u) \<in> set (sweepInputs targets). swept a"
    unfolding d by (auto simp: list_all_iff)
  have len: "length (TxIn tx) = length (sweepInputs targets)"
    using seq by (metis length_map)
  show ?thesis
  proof (rule list_all2_all_nthI [OF len])
    fix n assume n: "n < length (TxIn tx)"
    obtain a u where au: "sweepInputs targets ! n = (a, u)" by (cases "sweepInputs targets ! n")
    have "map Sequence (TxIn tx) ! n = map (\<lambda>(a, u). seqOf a) (sweepInputs targets) ! n"
      using seq by simp
    then have s: "Sequence (TxIn tx ! n) = seqOf a"
      using n len au by simp
    have "map PreviousOutPoint (TxIn tx) ! n = map (\<lambda>(a, u). OutPoint u) (sweepInputs targets) ! n"
      using prev by simp
    then have q: "PreviousOutPoint (TxIn tx ! n) = OutPoint u"
      using n len au by simp
    have "(a, u) \<in> set (sweepInputs targets)"
      using n len au by (metis nth_mem)
    then have "swept a" using sw by auto
    then show "(case sweepInputs targets ! n of
            (a, u) \<Rightarrow> PreviousOutPoint (TxIn tx ! n) = OutPoint u
                       \<and> inputSequenceOk a (Sequence (TxIn tx ! n)))"
      using au s q by (cases a) (simp_all add: MaxTxInSequenceNum_def)
  qed
qed

lemma sint_diff_nonneg:
  fixes a b :: "64 word"
  assumes "0 \<le> sint a" and "sint a \<le> sint b"
  shows "sint (a - b) = sint a - sint b"
proof -
  have "sint b < 2 ^ 63" using sint_lt [of b] by simp
  moreover have "sint a < 2 ^ 63" using sint_lt [of a] by simp
  ultimately have "- (2 ^ 63) \<le> sint a - sint b" "sint a - sint b < 2 ^ 63"
    using assms by simp_all
  then show ?thesis
    by (simp add: sint_word_diff signed_take_bit_int_eq_self)
qed

text \<open>
  C8.  When there is a target, the total input value is at least the dust
  floor of 600 and the estimated fee is at least that total, the builder does
  not fail with \<open>InsufficientFunds\<close>: the check compares the total alone with
  600.  The single output of the transaction it then builds has the value
  total less fee, which is zero or negative.
\<close>

theorem buildAndSign_fee_above_total:
  assumes "targets \<noteq> []"
    and "sweepDustLimit \<le> totalInputValue targets"
    and "0 \<le> sint (totalInputValue targets)"
    and "sint (totalInputValue targets) \<le> sint (totalFee E feeRate (estimatedCalls E est0 targets))"
  shows "\<not> failsInsufficientFunds (buildAndSign E targets sweepScript est0 feeRate)
       \<and> (\<forall>tx. buildAndSign E targets sweepScript est0 feeRate = Inr tx \<longrightarrow>
             (\<exists>out. TxOuts tx = [out] \<and> PkScript out = sweepScript
                \<and> sint (TxOut_Value out)
                    = sint (totalInputValue targets)
                        - sint (totalFee E feeRate (estimatedCalls E est0 targets))
                \<and> sint (TxOut_Value out) \<le> 0))"
proof (intro conjI allI impI)
  show "\<not> failsInsufficientFunds (buildAndSign E targets sweepScript est0 feeRate)"
    using assms(1,2) by (simp add: buildAndSign_fails_iff not_less)
next
  fix tx assume "buildAndSign E targets sweepScript est0 feeRate = Inr tx"
  from buildAndSign_output [OF this]
  have "TxOuts tx = [\<lparr> TxOut_Value = totalInputValue targets
                 - totalFee E feeRate (estimatedCalls E est0 targets),
              PkScript = sweepScript \<rparr>]" .
  then show "\<exists>out. TxOuts tx = [out] \<and> PkScript out = sweepScript
                \<and> sint (TxOut_Value out)
                    = sint (totalInputValue targets)
                        - sint (totalFee E feeRate (estimatedCalls E est0 targets))
                \<and> sint (TxOut_Value out) \<le> 0"
    using sint_diff_nonneg [OF assms(3,4)] assms(4) by simp
qed

section \<open>Properties of the balance scanner\<close>

lemma queryAddr_ok:
  "queryAddr E kd targets a scr tree = Inr r
     \<longleftrightarrow> lookupOk E a \<and> r = targets @ addressHit E kd (a, scr, tree)"
  by (cases "Unspent E (EncodeAddress E a)")
     (auto simp: queryAddr_def lookupOk_def addressHit_def split: sum.splits)

lemma queryAddressBalances_ok:
  assumes "P2WKHAddr E pk = Inr a1"
    and "P2AnchorStaticRemote E pk = Inr (a2, scr)"
    and "P2TaprootStaticRemote E pk = Inr (a3, tree)"
  shows "queryAddressBalances E pk kd = Inr r
     \<longleftrightarrow> lookupOk E a1 \<and> lookupOk E a2 \<and> lookupOk E a3
          \<and> r = addressHit E kd (a1, [], None) @ addressHit E kd (a2, scr, None)
                  @ addressHit E kd (a3, [], Some tree)"
proof (cases "queryAddr E kd [] a1 [] None")
  case (Inl e)
  then have "\<not> lookupOk E a1" using queryAddr_ok [of E kd "[]" a1 "[]" None] by auto
  then show ?thesis using Inl assms by (simp add: queryAddressBalances_def)
next
  case (Inr t1)
  then have 1: "lookupOk E a1" "t1 = addressHit E kd (a1, [], None)"
    using queryAddr_ok [of E kd "[]" a1 "[]" None t1] by auto
  show ?thesis
  proof (cases "queryAddr E kd t1 a2 scr None")
    case (Inl e)
    then have "\<not> lookupOk E a2" using queryAddr_ok [of E kd t1 a2 scr None] by auto
    then show ?thesis using Inl Inr assms by (simp add: queryAddressBalances_def)
  next
    case r2: (Inr t2)
    then have 2: "lookupOk E a2" "t2 = t1 @ addressHit E kd (a2, scr, None)"
      using queryAddr_ok [of E kd t1 a2 scr None t2] by auto
    have "queryAddressBalances E pk kd = queryAddr E kd t2 a3 [] (Some tree)"
      using Inr r2 assms by (simp add: queryAddressBalances_def)
    then show ?thesis
      using 1 2 queryAddr_ok [of E kd t2 a3 "[]" "Some tree" r] by auto
  qed
qed

lemma scanIndex_ok:
  "scanIndex E key index = Inr r \<longleftrightarrow> indexScanOk E key index \<and> r = indexTargets E key index"
proof (cases "indexCandidates E key index")
  case None
  then have "\<exists>e. scanIndex E key index = Inl e"
    by (auto simp: indexCandidates_def scanIndex_def queryAddressBalances_def
             split: sum.splits prod.splits)
  then show ?thesis using None by (auto simp: indexScanOk_def)
next
  case (Some c)
  then obtain pk a1 a2 scr a3 tree where
    c: "c = (pk, [(a1, [], None), (a2, scr, None), (a3, [], Some tree)])"
    and d: "derivePaymentBase E key index = Inr pk"
    and a: "P2WKHAddr E pk = Inr a1" "P2AnchorStaticRemote E pk = Inr (a2, scr)"
      "P2TaprootStaticRemote E pk = Inr (a3, tree)"
    by (auto simp: indexCandidates_def split: sum.splits prod.splits)
  let ?kd = "\<lparr> Family = KeyFamilyPaymentBase E, Index = index, PubKey = pk \<rparr>"
  have "scanIndex E key index = Inr r \<longleftrightarrow> queryAddressBalances E pk ?kd = Inr r"
    using d by (auto simp: scanIndex_def split: sum.splits)
  then show ?thesis
    using queryAddressBalances_ok [OF a, of ?kd r] Some c
    by (auto simp: indexScanOk_def indexTargets_def)
qed

lemma scanLoop_ok:
  assumes "\<forall>i \<in> set is. indexScanOk E key i"
  shows "scanLoop E key acc is = Inr (acc @ concat (map (indexTargets E key) is))"
  using assms
proof (induction "is" arbitrary: acc)
  case Nil
  then show ?case by simp
next
  case (Cons i "is")
  then have "scanIndex E key i = Inr (indexTargets E key i)"
    using scanIndex_ok [of E key i] by simp
  then show ?case using Cons by simp
qed

lemma scanLoop_Inr:
  assumes "scanLoop E key acc is = Inr r"
  shows "\<forall>i \<in> set is. indexScanOk E key i"
  using assms
proof (induction "is" arbitrary: acc)
  case Nil
  then show ?case by simp
next
  case (Cons i "is")
  then obtain ts where ts: "scanIndex E key i = Inr ts" "scanLoop E key (acc @ ts) is = Inr r"
    by (auto split: sum.splits)
  then have "indexScanOk E key i" using scanIndex_ok [of E key i ts] by simp
  then show ?case using Cons.IH [OF ts(2)] by simp
qed

text \<open>
  C6.  When at every index below the recovery window the payment-base key and
  its three addresses are derived and the three lookups are in order (whether
  or not they find outputs), the scanner returns, for the indices
  \<open>0, 1, \<dots>, w - 1\<close> in ascending order and at each index for the three
  addresses in order, one populated target for every address with one or more
  unspent outputs and nothing for an address with none: every index is
  scanned, whatever the earlier ones found.
\<close>

theorem scanTargets_whole_window:
  assumes "\<forall>i < unat w. indexScanOk E key (of_nat i)"
  shows "scanTargets E key w
           = Inr (concat (map (\<lambda>i. indexTargets E key (of_nat i)) [0..<unat w]))"
proof -
  have "\<forall>i \<in> set (map of_nat [0..<unat w]). indexScanOk E key i"
    using assms by auto
  from scanLoop_ok [OF this, of "[]"] show ?thesis
    by (simp add: scanTargets_def comp_def)
qed

section \<open>Properties of the legacy records and of the session\<close>

lemma ParseAddress_error: "ParseAddress E a = Inl err \<Longrightarrow> \<not> is_errAddrNotFound err"
  by (auto simp: ParseAddress_def split: sum.splits if_splits)

lemma findAncient_found:
  assumes "addressFound E n c"
  shows "findAncientChannels_loop E n found (c # rest)
           = findAncientChannels_loop E n (found @ [c]) rest"
  using assms by (auto simp: addressFound_def split: sum.splits)

lemma findAncient_notFound:
  assumes "addressNotFound E n c"
  shows "findAncientChannels_loop E n found (c # rest) = findAncientChannels_loop E n found rest"
  using assms by (auto simp: addressNotFound_def split: sum.splits)

lemma findAncient_abort:
  assumes "\<not> addressFound E n c" and "\<not> addressNotFound E n c"
  shows "\<exists>err. findAncientChannels_loop E n found (c # rest) = Inl err
           \<and> \<not> is_errAddrNotFound err"
  using assms
  by (auto simp: addressFound_def addressNotFound_def ParseAddress_error split: sum.splits)

lemma found_not_notFound: "addressFound E n c \<Longrightarrow> \<not> addressNotFound E n c"
  by (auto simp: addressFound_def addressNotFound_def split: sum.splits)

lemma findAncient_Inr:
  "findAncientChannels_loop E n found cs = Inr r
     \<longleftrightarrow> list_all (\<lambda>c. addressFound E n c \<or> addressNotFound E n c) cs
          \<and> r = found @ filter (addressFound E n) cs"
proof (induction cs arbitrary: found)
  case Nil
  then show ?case by auto
next
  case (Cons c cs)
  consider (f) "addressFound E n c" | (nf) "\<not> addressFound E n c" "addressNotFound E n c"
    | (ab) "\<not> addressFound E n c" "\<not> addressNotFound E n c" by blast
  then show ?case
  proof cases
    case f
    show ?thesis
      unfolding findAncient_found [OF f] using f Cons.IH [of "found @ [c]"] by simp
  next
    case nf
    show ?thesis
      unfolding findAncient_notFound [OF nf(2)] using nf Cons.IH [of found] by simp
  next
    case ab
    from findAncient_abort [OF ab, of found cs] ab show ?thesis by auto
  qed
qed

lemma finishSweep_Inr:
  assumes "finishSweep E targets scr est0 feeRate publish = Inr tx"
  shows "buildAndSign E targets scr est0 feeRate = Inr tx
       \<and> (\<exists>buf. Serialize E tx = Inr buf
              \<and> (publish \<longrightarrow> (\<exists>resp. PublishTx E (hex_EncodeToString E buf) = Inr resp)))"
  using assms by (auto simp: finishSweep_def split: sum.splits if_splits)

text \<open>
  C5.  A legacy record for which the derivation cache answers
  \<open>AddressNotFound\<close> is skipped and the remaining records are processed; a
  record that is found is kept; any other outcome of a record ends the search
  with an error that is not \<open>AddressNotFound\<close>.  In the session, an
  \<open>AddressNotFound\<close> error of the check of the ancient channels is absorbed
  and the sweep is finished with the scanner's targets; any other error of
  that check, an error of the scanner and an error of signing an input are
  returned to the caller.  So a session that returns a transaction prepared the
  sweep address, scanned every index without a parse, derivation or lookup
  error, passed the check of the ancient channels (with success or with
  \<open>AddressNotFound\<close>), built and signed that transaction, serialized it and,
  if asked to, published it.
\<close>

theorem sweepRemoteClosed_absorbs_only_AddressNotFound:
  "(addressNotFound E n c \<longrightarrow>
      findAncientChannels_loop E n found (c # rest) = findAncientChannels_loop E n found rest)
   \<and> (addressFound E n c \<longrightarrow>
      findAncientChannels_loop E n found (c # rest)
        = findAncientChannels_loop E n (found @ [c]) rest)
   \<and> (\<not> addressFound E n c \<and> \<not> addressNotFound E n c \<longrightarrow>
      (\<exists>err. findAncientChannels_loop E n found (c # rest) = Inl err
            \<and> \<not> is_errAddrNotFound err))
   \<and> (PrepareWalletAddress E sweepAddr key = Inr (scr, est0)
        \<and> scanTargets E key w = Inr targets
        \<and> checkAncientChannelPoints E w key = Inl err \<and> is_errAddrNotFound err \<longrightarrow>
      sweepRemoteClosed E key sweepAddr w feeRate publish
        = finishSweep E targets scr est0 feeRate publish)
   \<and> (PrepareWalletAddress E sweepAddr key = Inr (scr, est0)
        \<and> scanTargets E key w = Inr targets
        \<and> checkAncientChannelPoints E w key = Inl err \<and> \<not> is_errAddrNotFound err \<longrightarrow>
      sweepRemoteClosed E key sweepAddr w feeRate publish
        = Inl (Wrap ''could not check ancient channel points'' err))
   \<and> (PrepareWalletAddress E sweepAddr key = Inr (scr, est0)
        \<and> scanTargets E key w = Inl err \<longrightarrow>
      sweepRemoteClosed E key sweepAddr w feeRate publish = Inl err)
   \<and> (signInput E sh idx tx d = Inl err \<longrightarrow> signInputs E sh idx tx (d # ds) = Inl err)
   \<and> (sweepRemoteClosed E key sweepAddr w feeRate publish = Inr stx \<longrightarrow>
        (\<exists>scr est0. PrepareWalletAddress E sweepAddr key = Inr (scr, est0))
        \<and> (\<forall>i < unat w. indexScanOk E key (of_nat i))
        \<and> ancientCheckPasses E w key
        \<and> (\<exists>targets scr est0. buildAndSign E targets scr est0 feeRate = Inr stx)
        \<and> (\<exists>buf. Serialize E stx = Inr buf
               \<and> (publish \<longrightarrow> (\<exists>resp. PublishTx E (hex_EncodeToString E buf) = Inr resp))))"
proof (intro conjI impI)
  assume "addressNotFound E n c"
  then show "findAncientChannels_loop E n found (c # rest)
      = findAncientChannels_loop E n found rest"
    by (rule findAncient_notFound)
next
  assume "addressFound E n c"
  then show "findAncientChannels_loop E n found (c # rest)
      = findAncientChannels_loop E n (found @ [c]) rest"
    by (rule findAncient_found)
next
  assume a: "\<not> addressFound E n c \<and> \<not> addressNotFound E n c"
  then show "\<exists>err. findAncientChannels_loop E n found (c # rest) = Inl err
      \<and> \<not> is_errAddrNotFound err"
    using findAncient_abort [of E n c found rest] by blast
next
  assume "PrepareWalletAddress E sweepAddr key = Inr (scr, est0)
        \<and> scanTargets E key w = Inr targets
        \<and> checkAncientChannelPoints E w key = Inl err \<and> is_errAddrNotFound err"
  then show "sweepRemoteClosed E key sweepAddr w feeRate publish
        = finishSweep E targets scr est0 feeRate publish"
    by (simp add: sweepRemoteClosed_def)
next
  assume "PrepareWalletAddress E sweepAddr key = Inr (scr, est0)
        \<and> scanTargets E key w = Inr targets
        \<and> checkAncientChannelPoints E w key = Inl err \<and> \<not> is_errAddrNotFound err"
  then show "sweepRemoteClosed E key sweepAddr w feeRate publish
        = Inl (Wrap ''could not check ancient channel points'' err)"
    by (simp add: sweepRemoteClosed_def)
next
  assume "PrepareWalletAddress E sweepAddr key = Inr (scr, est0)
        \<and> scanTargets E key w = Inl err"
  then show "sweepRemoteClosed E key sweepAddr w feeRate publish = Inl err"
    by (simp add: sweepRemoteClosed_def)
next
  assume "signInput E sh idx tx d = Inl err"
  then show "signInputs E sh idx tx (d # ds) = Inl err" by simp
next
  assume s: "sweepRemoteClosed E key sweepAddr w feeRate publish = Inr stx"
  then obtain scr est0 where p: "PrepareWalletAddress E sweepAddr key = Inr (scr, est0)"
    by (auto simp: sweepRemoteClosed_def split: sum.splits)
  from s p obtain targets where t: "scanTargets E key w = Inr targets"
    by (auto simp: sweepRemoteClosed_def split: sum.splits)
  from s p t have a: "ancientCheckPasses E w key"
    by (auto simp: sweepRemoteClosed_def ancientCheckPasses_def split: sum.splits if_splits)
  from s p t obtain ts where f: "finishSweep E ts scr est0 feeRate publish = Inr stx"
    by (auto simp: sweepRemoteClosed_def split: sum.splits if_splits)
  from t have "\<forall>i \<in> set (map of_nat [0..<unat w]). indexScanOk E key i"
    unfolding scanTargets_def by (rule scanLoop_Inr)
  then have sc: "\<forall>i < unat w. indexScanOk E key (of_nat i)" by auto
  {
    show "\<exists>scr est0. PrepareWalletAddress E sweepAddr key = Inr (scr, est0)" using p by blast
    show "\<forall>i < unat w. indexScanOk E key (of_nat i)" by (rule sc)
    show "ancientCheckPasses E w key" by (rule a)
    show "\<exists>targets scr est0. buildAndSign E targets scr est0 feeRate = Inr stx"
      using finishSweep_Inr [OF f] by blast
    show "\<exists>buf. Serialize E stx = Inr buf
               \<and> (publish \<longrightarrow> (\<exists>resp. PublishTx E (hex_EncodeToString E buf) = Inr resp))"
      using finishSweep_Inr [OF f] by blast
  }
qed

section \<open>The model on the stand-in environment\<close>

lemmas demo_build =
  buildAndSign_def addUtxo_def signInput_def setWitness_def totalFee_def demo_env_def
  demo_target_def demo_utxo_def sweepDustLimit_def MaxTxInSequenceNum_def Let_def

lemma demo_tx_built: "buildAndSign demo_env demo_targets [7] [AddP2WKHOutput] 10 = Inr demo_tx"
  by (simp add: demo_build demo_targets_def demo_tx_def)

text \<open>
  C2, as the claim states it, fails: for a single plain-key-hash output of
  value 1000 and a fee rate of 5 per vbyte the fee is 548, so the value less
  the fee is 452, below 600, and yet the builder does not fail: it builds and
  signs a transaction whose output is 452.
\<close>

theorem buildAndSign_fee_not_checked:
  "totalFee demo_env 5 [AddP2WKHOutput, AddP2WKHInput] = 548
   \<and> buildAndSign demo_env [demo_target (AddressWitnessPubKeyHash [1]) 1000] [7]
         [AddP2WKHOutput] 5
       = Inr \<lparr> Version = 2,
               TxIn = [\<lparr> PreviousOutPoint = \<lparr> OutPoint_Hash = [170], OutPoint_Index = 1 \<rparr>,
                        Witness = [[0, 20]], Sequence = 0xffffffff \<rparr>],
               TxOuts = [\<lparr> TxOut_Value = 452, PkScript = [7] \<rparr>],
               LockTime = 0 \<rparr>"
  by (simp add: demo_build)

theorem buildAndSign_dust_check_witness:
  "addr (demo_target (AddressWitnessPubKeyHash [1]) 599) = AddressWitnessPubKeyHash [1]
   \<and> utxos (demo_target (AddressWitnessPubKeyHash [1]) 599) = [demo_utxo 599]
   \<and> failsInsufficientFunds
        (buildAndSign demo_env [demo_target (AddressWitnessPubKeyHash [1]) 599] [7]
           [AddP2WKHOutput] 5)
   \<and> buildAndSign demo_env [demo_target (AddressWitnessPubKeyHash [1]) 599] [7]
         [AddP2WKHOutput] 5 = Inl (ErrDustLimit 1 599)"
proof -
  let ?t = "demo_target (AddressWitnessPubKeyHash [1]) 599"
  have h: "addr ?t = AddressWitnessPubKeyHash [1] \<and> utxos ?t = [demo_utxo 599]"
    by (simp add: demo_target_def)
  have v: "TxOut_Value (TxOut (demo_utxo 599)) < 600"
    by (simp add: demo_utxo_def)
  have "failsInsufficientFunds (buildAndSign demo_env [?t] [7] [AddP2WKHOutput] 5)"
    using buildAndSign_dust_check [of demo_env "[?t]" "[7]" "[AddP2WKHOutput]" 5 ?t "[1]"
        "demo_utxo 599", THEN conjunct2, THEN conjunct2, THEN mp, OF h] v
    by simp
  moreover have "buildAndSign demo_env [?t] [7] [AddP2WKHOutput] 5 = Inl (ErrDustLimit 1 599)"
    by (simp add: demo_build)
  ultimately show ?thesis using h by (intro conjI) simp_all
qed

theorem buildAndSign_single_output_witness:
  "buildAndSign demo_env demo_targets [7] [AddP2WKHOutput] 10 = Inr demo_tx
   \<and> TxOuts demo_tx =
       [\<lparr> TxOut_Value = totalInputValue demo_targets
             - FeeForWeight demo_env (FeePerKWeight demo_env (ucast (1000 * (10 :: u32))))
                 (Weight demo_env (estimatedCalls demo_env [AddP2WKHOutput] demo_targets)),
          PkScript = [7] \<rparr>]
   \<and> totalInputValue demo_targets = 51500
   \<and> FeeForWeight demo_env (FeePerKWeight demo_env (ucast (1000 * (10 :: u32))))
        (Weight demo_env (estimatedCalls demo_env [AddP2WKHOutput] demo_targets)) = 2540"
proof -
  have "totalInputValue demo_targets = 51500"
    by (simp add: totalInputValue_def sweepInputs_def demo_targets_def demo_target_def
        demo_utxo_def)
  moreover have "FeeForWeight demo_env (FeePerKWeight demo_env (ucast (1000 * (10 :: u32))))
        (Weight demo_env (estimatedCalls demo_env [AddP2WKHOutput] demo_targets)) = 2540"
    by (simp add: estimatedCalls_def sweepInputs_def demo_targets_def demo_target_def
        demo_env_def)
  ultimately show ?thesis
    using demo_tx_built buildAndSign_single_output [OF demo_tx_built] by (intro conjI)
qed

theorem buildAndSign_sequences_witness:
  "buildAndSign demo_env demo_targets [7] [AddP2WKHOutput] 10 = Inr demo_tx
   \<and> list_all2 (\<lambda>txin (a, u). PreviousOutPoint txin = OutPoint u
                                 \<and> inputSequenceOk a (Sequence txin))
        (TxIn demo_tx) (sweepInputs demo_targets)
   \<and> map fst (sweepInputs demo_targets)
       = [AddressWitnessPubKeyHash [1], AddressWitnessScriptHash [2], AddressTaproot [3]]
   \<and> map Sequence (TxIn demo_tx) = [0xffffffff, 1, 1]"
proof -
  have "map fst (sweepInputs demo_targets)
       = [AddressWitnessPubKeyHash [1], AddressWitnessScriptHash [2], AddressTaproot [3]]"
    by (simp add: sweepInputs_def demo_targets_def demo_target_def)
  moreover have "map Sequence (TxIn demo_tx) = [0xffffffff, 1, 1]"
    by (simp add: demo_tx_def)
  ultimately show ?thesis
    using demo_tx_built buildAndSign_sequences [OF demo_tx_built] by (intro conjI)
qed

theorem buildAndSign_fee_above_total_witness:
  "[demo_target (AddressWitnessPubKeyHash [1]) 1000] \<noteq> []
   \<and> sweepDustLimit \<le> totalInputValue [demo_target (AddressWitnessPubKeyHash [1]) 1000]
   \<and> totalInputValue [demo_target (AddressWitnessPubKeyHash [1]) 1000] = 1000
   \<and> totalFee demo_env 10
        (estimatedCalls demo_env [AddP2WKHOutput]
           [demo_target (AddressWitnessPubKeyHash [1]) 1000]) = 1097
   \<and> \<not> failsInsufficientFunds
         (buildAndSign demo_env [demo_target (AddressWitnessPubKeyHash [1]) 1000] [7]
            [AddP2WKHOutput] 10)
   \<and> buildAndSign demo_env [demo_target (AddressWitnessPubKeyHash [1]) 1000] [7]
         [AddP2WKHOutput] 10
       = Inr \<lparr> Version = 2,
               TxIn = [\<lparr> PreviousOutPoint = \<lparr> OutPoint_Hash = [170], OutPoint_Index = 1 \<rparr>,
                        Witness = [[0, 20]], Sequence = 0xffffffff \<rparr>],
               TxOuts = [\<lparr> TxOut_Value = - 97, PkScript = [7] \<rparr>],
               LockTime = 0 \<rparr>"
proof -
  let ?ts = "[demo_target (AddressWitnessPubKeyHash [1]) 1000]"
  have n: "?ts \<noteq> []" by simp
  have t: "totalInputValue ?ts = 1000"
    by (simp add: totalInputValue_def sweepInputs_def demo_target_def demo_utxo_def)
  have f: "totalFee demo_env 10 (estimatedCalls demo_env [AddP2WKHOutput] ?ts) = 1097"
    by (simp add: totalFee_def estimatedCalls_def sweepInputs_def demo_target_def demo_env_def)
  have d: "sweepDustLimit \<le> totalInputValue ?ts"
    by (simp add: t sweepDustLimit_def)
  have p: "0 \<le> sint (totalInputValue ?ts)" by (simp add: t)
  have g: "sint (totalInputValue ?ts)
             \<le> sint (totalFee demo_env 10 (estimatedCalls demo_env [AddP2WKHOutput] ?ts))"
    by (simp add: t f)
  have "\<not> failsInsufficientFunds (buildAndSign demo_env ?ts [7] [AddP2WKHOutput] 10)"
    using buildAndSign_fee_above_total [OF n d p g, of "[7]"] by blast
  moreover have "buildAndSign demo_env ?ts [7] [AddP2WKHOutput] 10
       = Inr \<lparr> Version = 2,
               TxIn = [\<lparr> PreviousOutPoint = \<lparr> OutPoint_Hash = [170], OutPoint_Index = 1 \<rparr>,
                        Witness = [[0, 20]], Sequence = 0xffffffff \<rparr>],
               TxOuts = [\<lparr> TxOut_Value = - 97, PkScript = [7] \<rparr>],
               LockTime = 0 \<rparr>"
    by (simp add: demo_build)
  ultimately show ?thesis using n d t f by (intro conjI)
qed

lemmas demo_scan =
  scanTargets_def scanIndex_def derivePaymentBase_def scanPath_def queryAddressBalances_def
  queryAddr_def P2WKHAddr_def P2AnchorStaticRemote_def P2TaprootStaticRemote_def
  ParsePath_eval DeriveChildren_def demo_keychain_def demo_env_def demo_funded_def
  demo_vout_def hexEncode_def bytes_of_def upt_rec

lemmas demo_index =
  indexScanOk_def indexCandidates_def lookupOk_def derivePaymentBase_def scanPath_def
  P2WKHAddr_def P2AnchorStaticRemote_def P2TaprootStaticRemote_def
  ParsePath_eval DeriveChildren_def demo_keychain_def demo_env_def demo_funded_def
  demo_vout_def hexEncode_def bytes_of_def

lemma demo_scan_path:
  "(ParsePath (scanPath demo_env 3) :: string error + u32 list)
     = Inr [HardenedKeyStart + 1017, HardenedKeyStart, HardenedKeyStart + 3, 0, 3]"
  by (simp add: scanPath_def demo_env_def ParsePath_eval)

lemma demo_indices_ok: "list_all (\<lambda>i. indexScanOk demo_env [] (of_nat i)) [0..<5]"
  by (simp add: upt_rec demo_index)

lemma demo_scan_result: "scanTargets demo_env [] 5 = Inr [demo_found]"
  by (simp add: demo_scan demo_found_def)

theorem scanTargets_whole_window_witness:
  "list_all (\<lambda>i. indexScanOk demo_env [] (of_nat i)) [0..<unat (5 :: u32)]
   \<and> scanTargets demo_env [] 5
       = Inr (concat (map (\<lambda>i. indexTargets demo_env [] (of_nat i)) [0..<unat (5 :: u32)]))
   \<and> scanTargets demo_env [] 5 = Inr [demo_found]"
proof -
  have u: "unat (5 :: u32) = 5" by simp
  have a: "list_all (\<lambda>i. indexScanOk demo_env [] (of_nat i)) [0..<unat (5 :: u32)]"
    unfolding u by (rule demo_indices_ok)
  then have "\<forall>i < unat (5 :: u32). indexScanOk demo_env [] (of_nat i)"
    by (simp add: list_all_iff)
  from scanTargets_whole_window [OF this] a demo_scan_result show ?thesis
    by (intro conjI)
qed

lemmas demo_ancient =
  checkAncientChannelPoints_def findAncientChannels_def ParseAddress_def demo_env_def
  demo_vout_def hexEncode_def bytes_of_def demo_unknown_def demo_known_def

lemma demo_prepare:
  "PrepareWalletAddress demo_env ''bc1q'' [] = Inr (bytes_of ''bc1q'', [AddP2WKHOutput])"
  by (simp add: demo_env_def)

lemma demo_ancient_result:
  "checkAncientChannelPoints demo_env 5 [] = Inr [demo_ancient_target]"
  by (simp add: demo_ancient demo_ancient_target_def)

lemma demo_finish:
  "finishSweep demo_env [demo_found, demo_ancient_target] (bytes_of ''bc1q'') [AddP2WKHOutput]
     10 True = Inr demo_session_tx"
  by (simp add: finishSweep_def demo_found_def demo_ancient_target_def demo_session_tx_def
        buildAndSign_def addUtxo_def signInput_def setWitness_def totalFee_def
        sweepDustLimit_def MaxTxInSequenceNum_def Let_def demo_env_def bytes_of_def)

lemma demo_session:
  "sweepRemoteClosed demo_env [] ''bc1q'' 5 10 True = Inr demo_session_tx"
  by (simp add: sweepRemoteClosed_def demo_prepare demo_scan_result demo_ancient_result
        demo_finish)

lemma demo_no_cache_scan: "scanTargets demo_env_no_cache [] 5 = Inr [demo_found]"
  by (simp add: demo_env_no_cache_def demo_scan demo_found_def)

lemma demo_no_cache_ancient:
  "checkAncientChannelPoints demo_env_no_cache 5 [] = Inl ErrAddrNotFound"
  by (simp add: demo_env_no_cache_def demo_ancient)

lemma demo_no_cache_prepare:
  "PrepareWalletAddress demo_env_no_cache ''bc1q'' []
     = Inr (bytes_of ''bc1q'', [AddP2WKHOutput])"
  by (simp add: demo_env_no_cache_def demo_env_def)

theorem sweepRemoteClosed_absorbs_only_AddressNotFound_witness:
  "addressNotFound demo_env 5 demo_unknown
   \<and> findAncientChannels_loop demo_env 5 [] [demo_unknown, demo_known]
       = findAncientChannels_loop demo_env 5 [] [demo_known]
   \<and> findAncientChannels_loop demo_env 5 [] [demo_unknown, demo_known] = Inr [demo_known]
   \<and> checkAncientChannelPoints demo_env_no_cache 5 [] = Inl ErrAddrNotFound
   \<and> sweepRemoteClosed demo_env_no_cache [] ''bc1q'' 5 10 True
       = finishSweep demo_env_no_cache [demo_found] (bytes_of ''bc1q'') [AddP2WKHOutput] 10 True
   \<and> sweepRemoteClosed demo_env [] ''bc1q'' 5 10 True = Inr demo_session_tx
   \<and> ancientCheckPasses demo_env 5 []
   \<and> list_all (\<lambda>i. indexScanOk demo_env [] (of_nat i)) [0..<5]"
proof -
  have nf: "addressNotFound demo_env 5 demo_unknown"
    by (simp add: addressNotFound_def demo_ancient)
  have skip: "findAncientChannels_loop demo_env 5 [] [demo_unknown, demo_known]
       = findAncientChannels_loop demo_env 5 [] [demo_known]"
    using sweepRemoteClosed_absorbs_only_AddressNotFound
        [where E = demo_env and n = 5 and c = demo_unknown and found = "[]"
           and rest = "[demo_known]", THEN conjunct1, THEN mp, OF nf] .
  have res: "findAncientChannels_loop demo_env 5 [] [demo_unknown, demo_known] = Inr [demo_known]"
    by (simp add: demo_ancient)
  have h: "PrepareWalletAddress demo_env_no_cache ''bc1q'' []
             = Inr (bytes_of ''bc1q'', [AddP2WKHOutput])
           \<and> scanTargets demo_env_no_cache [] 5 = Inr [demo_found]
           \<and> checkAncientChannelPoints demo_env_no_cache 5 [] = Inl ErrAddrNotFound
           \<and> is_errAddrNotFound (ErrAddrNotFound :: string error)"
    using demo_no_cache_prepare demo_no_cache_scan demo_no_cache_ancient by simp
  have absorb: "sweepRemoteClosed demo_env_no_cache [] ''bc1q'' 5 10 True
       = finishSweep demo_env_no_cache [demo_found] (bytes_of ''bc1q'') [AddP2WKHOutput] 10 True"
    using sweepRemoteClosed_absorbs_only_AddressNotFound
        [where E = demo_env_no_cache and sweepAddr = "''bc1q''" and key = "[]" and w = 5
           and scr = "bytes_of ''bc1q''" and ?est0.0 = "[AddP2WKHOutput]"
           and targets = "[demo_found]" and err = ErrAddrNotFound and feeRate = 10
           and publish = True,
         THEN conjunct2, THEN conjunct2, THEN conjunct2, THEN conjunct1, THEN mp, OF h] .
  have passes: "ancientCheckPasses demo_env 5 []"
    using sweepRemoteClosed_absorbs_only_AddressNotFound
        [where E = demo_env and sweepAddr = "''bc1q''" and key = "[]" and w = 5
           and feeRate = 10 and publish = True and stx = demo_session_tx,
         THEN conjunct2, THEN conjunct2, THEN conjunct2, THEN conjunct2, THEN conjunct2,
         THEN conjunct2, THEN conjunct2, THEN mp, OF demo_session]
    by blast
  show ?thesis
    using nf skip res demo_no_cache_ancient absorb demo_session passes demo_indices_ok
    by (intro conjI)
qed

end
